theory Spec2Isabelle
  imports Main "HOL-Library.Sublist"
begin

section \<open>Python values shared by the installer and its tests\<close>

text \<open>
  Exceptions are values.  \<open>LibvirtError\<close> carries the answer of
  \<open>util.is_error_nosupport\<close> for that error and its message; \<open>OtherException\<close>
  stands for every exception class the code does not name.
\<close>

datatype exn =
    ValueError string
  | RuntimeError string
  | TypeError string
  | LibvirtError bool string
  | OtherException string

fun exn_str :: "exn \<Rightarrow> string" where
  "exn_str (ValueError m) = m"
| "exn_str (RuntimeError m) = m"
| "exn_str (TypeError m) = m"
| "exn_str (LibvirtError ns m) = m"
| "exn_str (OtherException m) = m"

text \<open>Python's \<open>needle in haystack\<close> on strings.\<close>

fun str_contains :: "string \<Rightarrow> string \<Rightarrow> bool" where
  "str_contains needle [] = (needle = [])"
| "str_contains needle (c # cs) = (prefix needle (c # cs) \<or> str_contains needle cs)"

text \<open>Truth value of a string that may be \<open>None\<close>: \<open>None\<close> and \<open>''''\<close> are false.\<close>

definition truthy :: "string option \<Rightarrow> bool" where
  "truthy s = (case s of None \<Rightarrow> False | Some x \<Rightarrow> x \<noteq> [])"

section \<open>tests/test\_urls.py: the retry helper around detection\<close>

text \<open>
  \<open>_storeForDistro\<close> calls \<open>urldetect.getDistroStore\<close> inside
  \<open>for ignore in range(0, 10)\<close>.  The detection call is a parameter: \<open>gds i\<close> is
  what the call made in iteration \<open>i\<close> does, \<open>Inl e\<close> when it raises \<open>e\<close>.
  The helper's result comes with the calls it made, in order; \<open>time.sleep(.5)\<close>
  is recorded in milliseconds.  The bare \<open>raise\<close> after the loop has no active
  exception, which Python 3 reports as a \<open>RuntimeError\<close>.
\<close>

datatype probe_event = GetDistroStore | Sleep nat

fun storeForDistro_loop ::
  "(nat \<Rightarrow> exn + 's) \<Rightarrow> nat list \<Rightarrow> (exn + 's) \<times> probe_event list" where
  "storeForDistro_loop gds [] =
     (Inl (RuntimeError ''No active exception to reraise''), [])"
| "storeForDistro_loop gds (ignore # rest) =
     (case gds ignore of
        Inr store \<Rightarrow> (Inr store, [GetDistroStore])
      | Inl e \<Rightarrow>
          if str_contains ''502'' (exn_str e)
          then (case storeForDistro_loop gds rest of
                  (r, evs) \<Rightarrow> (r, GetDistroStore # Sleep 500 # evs))
          else (Inl e, [GetDistroStore]))"

definition storeForDistro :: "(nat \<Rightarrow> exn + 's) \<Rightarrow> (exn + 's) \<times> probe_event list" where
  "storeForDistro gds = storeForDistro_loop gds [0..<10]"

text \<open>A failure of the proxy-gateway class: the call raised and the message has \<open>502\<close> in it.\<close>

definition proxy_failure :: "exn + 's \<Rightarrow> bool" where
  "proxy_failure r = (case r of Inl e \<Rightarrow> str_contains ''502'' (exn_str e) | Inr _ \<Rightarrow> False)"

definition retries :: "nat \<Rightarrow> probe_event list" where
  "retries k = concat (replicate k [GetDistroStore, Sleep 500])"

section \<open>virtinst/installer.py: the data the installer works on\<close>

text \<open>
  \<open>DeviceDisk\<close> and \<open>DomainOs\<close> are declared in other modules of \<open>virtinst\<close>.  The
  device kinds that \<open>DeviceDisk.DEVICE_*\<close> name are an enumeration; the boot
  devices are strings, as \<open>installer.py\<close> itself writes \<open>"hd"\<close> and
  \<open>"cdrom"\<close>.
\<close>

datatype disk_device = DEVICE_DISK | DEVICE_CDROM | DEVICE_FLOPPY | DEVICE_LUN

record disk =
  device :: disk_device
  path :: "string option"
  boot_order :: "nat option"
  storage_was_created :: bool
  vol_object :: "string option"

definition is_cdrom :: "disk \<Rightarrow> bool" where
  "is_cdrom d = (device d = DEVICE_CDROM)"

text \<open>
  \<open>_build_boot_order\<close> reads \<open>guest.devices.disk\<close> only, so it takes that list.
  The loop stops at the first device of kind \<open>DEVICE_DISK\<close>.
\<close>

fun build_boot_order_loop :: "disk list \<Rightarrow> string list \<Rightarrow> string list" where
  "build_boot_order_loop [] bootorder = bootorder"
| "build_boot_order_loop (d # ds) bootorder =
     (if device d = DEVICE_DISK
      then (let bootdev = ''hd''
            in if bootdev \<notin> set bootorder then bootorder @ [bootdev] else bootorder)
      else build_boot_order_loop ds bootorder)"

definition build_boot_order :: "disk list \<Rightarrow> string \<Rightarrow> string list" where
  "build_boot_order guest_disks bootdev = build_boot_order_loop guest_disks [bootdev]"

text \<open>
  Devices are objects: the installer keeps a reference to the install CDROM device
  that also sits in the guest's device list, and clears its path through that
  reference.  So devices live in a store, and the guest and the installer hold
  references into it.
\<close>

type_synonym ref = nat

type_synonym domain = nat

text \<open>
  The guest configuration object, with the fields and accessors \<open>installer.py\<close>
  reads or writes: \<open>guest.os.*\<close>, \<open>guest.on_reboot\<close>, \<open>guest.type\<close>,
  \<open>guest.os.is_container()\<close>, \<open>guest.osinfo.is_windows()\<close>,
  \<open>guest.devices.disk\<close>, and \<open>boot.order\<close> of the devices that are not disks
  (\<open>guest.devices.get_all()\<close> is the disks and these).
\<close>

record guest =
  name :: string
  guest_type :: string
  os_bootorder :: "string list"
  os_kernel :: "string option"
  os_initrd :: "string option"
  os_kernel_args :: "string option"
  on_reboot :: "string option"
  os_is_container :: bool
  osinfo_is_windows :: bool
  devices_disk :: "ref list"
  devices_other_boot_order :: "nat option list"

text \<open>
  \<open>InstallerTreeMedia\<close> is declared elsewhere; of it the installer uses
  \<open>location\<close> and the answer of \<open>cdrom_path()\<close>.
\<close>

record treemedia =
  location :: string
  treemedia_cdrom_path :: "string option"

record installer =
  livecd :: bool
  extra_args :: "string list"
  autostart :: bool
  install_bootdev :: "string option"
  install_kernel :: "string option"
  install_initrd :: "string option"
  install_cdrom_device :: "ref option"
  defaults_are_set :: bool
  cdrom :: "string option"
  treemedia :: "treemedia option"

text \<open>
  Calls that leave the process (libvirt, the storage layer, the install tree, the
  progress meter, the log at warning and error level) are recorded in order.
  \<open>DefineXML\<close> and \<open>CreateXML\<close> keep what the connection answered.
\<close>

datatype event =
    ValidatePath string
  | NewTreeMedia string
  | ValidateName string
  | DevValidate ref
  | GuestSetDefaults
  | TreePrepare
  | BuildStorage ref
  | GetXml
  | DefineXML string "exn + domain"
  | CreateXML string "exn + domain"
  | DomainCreate domain
  | DomainUndefine domain
  | DomainXMLDesc domain
  | SetAutostart domain
  | TreeCleanup
  | MeterStart string
  | MeterEnd
  | VolDelete string
  | Unlink string
  | LogWarning string
  | LogError string

text \<open>
  What the collaborators do is a parameter of every function.  A collaborator that
  can raise answers with a sum or an optional exception, and may take the calls made
  so far into account.  \<open>DeviceDisk_new\<close> is the object \<open>DeviceDisk(conn)\<close>
  constructs; \<open>sync_path_props\<close> recomputes fields of a device from its path;
  \<open>environ_initrd_test\<close> is \<open>"VIRTINST_INITRD_TEST" in os.environ\<close>.
  When \<open>_remove_install_cdrom_media\<close> clears the install media,
  \<open>set_path_raises\<close> is the exception that the assignment \<open>dev.path = None\<close>
  raises, if any, and \<open>sync_path_props_raises\<close> the one that
  \<open>dev.sync_path_props()\<close> raises, if any.  The progress meter and the logger
  only record.  The functions below carry the names of the methods of
  \<open>Installer\<close> without the leading underscore.
\<close>

record env =
  validate_path :: "event list \<Rightarrow> string \<Rightarrow> exn + string"
  new_treemedia ::
    "event list \<Rightarrow> string \<Rightarrow> string option \<Rightarrow> string option \<Rightarrow> exn + treemedia"
  validate_name :: "event list \<Rightarrow> string \<Rightarrow> exn option"
  DeviceDisk_new :: disk
  sync_path_props :: "disk \<Rightarrow> disk"
  dev_validate :: "event list \<Rightarrow> disk \<Rightarrow> exn option"
  guest_set_defaults ::
    "event list \<Rightarrow> guest \<Rightarrow> (ref \<Rightarrow> disk) \<Rightarrow> exn + guest \<times> (ref \<Rightarrow> disk)"
  treemedia_prepare ::
    "event list \<Rightarrow> guest \<Rightarrow> exn + string option \<times> string option \<times> string option"
  environ_initrd_test :: bool
  build_storage :: "event list \<Rightarrow> disk \<Rightarrow> exn + disk"
  get_xml :: "event list \<Rightarrow> guest \<Rightarrow> disk list \<Rightarrow> exn + string"
  conn_defineXML :: "event list \<Rightarrow> string \<Rightarrow> exn + domain"
  conn_createXML :: "event list \<Rightarrow> string \<Rightarrow> exn + domain"
  domain_create :: "event list \<Rightarrow> domain \<Rightarrow> exn option"
  domain_undefine :: "event list \<Rightarrow> domain \<Rightarrow> exn option"
  domain_setAutostart :: "event list \<Rightarrow> domain \<Rightarrow> exn option"
  treemedia_cleanup :: "event list \<Rightarrow> exn option"
  vol_delete :: "event list \<Rightarrow> string \<Rightarrow> exn option"
  os_unlink :: "event list \<Rightarrow> string \<Rightarrow> exn option"
  set_path_raises :: "event list \<Rightarrow> disk \<Rightarrow> string option \<Rightarrow> exn option"
  sync_path_props_raises :: "event list \<Rightarrow> disk \<Rightarrow> exn option"

text \<open>
  The state a method works on: the guest it is given, the installer (\<open>self\<close>),
  the device store with its next free reference, and the calls made so far.
\<close>

record world =
  guest :: guest
  inst :: installer
  heap :: "ref \<Rightarrow> disk"
  next_ref :: ref
  trace :: "event list"

type_synonym 'a action = "world \<Rightarrow> (exn + 'a) \<times> world"

definition returns :: "'a \<Rightarrow> 'a action" where
  "returns x w = (Inr x, w)"

definition raise :: "exn \<Rightarrow> 'a action" where
  "raise e w = (Inl e, w)"

definition bind :: "'a action \<Rightarrow> ('a \<Rightarrow> 'b action) \<Rightarrow> 'b action" where
  "bind m f w = (case m w of (Inl e, w') \<Rightarrow> (Inl e, w') | (Inr x, w') \<Rightarrow> f x w')"

text \<open>A statement that cannot raise.\<close>

definition update :: "(world \<Rightarrow> world) \<Rightarrow> unit action" where
  "update f w = (Inr (), f w)"

text \<open>
  \<open>try: body finally: fin\<close>.  The \<open>finally\<close> block runs on every exit of the
  body; an exception of its own replaces the body's outcome.
\<close>

definition try_finally :: "'a action \<Rightarrow> unit action \<Rightarrow> 'a action" where
  "try_finally body fin w =
     (case body w of
        (r, w') \<Rightarrow> (case fin w' of (Inl e, w'') \<Rightarrow> (Inl e, w'') | (Inr u, w'') \<Rightarrow> (r, w'')))"

definition emit :: "event \<Rightarrow> world \<Rightarrow> world" where
  "emit e w = w\<lparr>trace := trace w @ [e]\<rparr>"

text \<open>A call of a collaborator that answers with an optional exception.\<close>

definition call :: "event \<Rightarrow> exn option \<Rightarrow> unit action" where
  "call e outcome w = (case outcome of None \<Rightarrow> (Inr (), emit e w) | Some x \<Rightarrow> (Inl x, emit e w))"

definition guest_disks :: "world \<Rightarrow> disk list" where
  "guest_disks w = map (heap w) (devices_disk (guest w))"

text \<open>Python's \<open>a or b\<close> on an optional string and a string.\<close>

definition py_or :: "string option \<Rightarrow> string \<Rightarrow> string" where
  "py_or a b = (case a of None \<Rightarrow> b | Some x \<Rightarrow> if x \<noteq> [] then x else b)"

text \<open>Truth value of an optional integer: \<open>None\<close> and \<open>0\<close> are false.\<close>

definition truthy_int :: "nat option \<Rightarrow> bool" where
  "truthy_int n = (case n of None \<Rightarrow> False | Some k \<Rightarrow> k \<noteq> 0)"

fun join :: "string \<Rightarrow> string list \<Rightarrow> string" where
  "join sep [] = []"
| "join sep [x] = x"
| "join sep (x # y # ys) = x @ sep @ join sep (y # ys)"

definition basename :: "string \<Rightarrow> string" where
  "basename p = rev (takeWhile (\<lambda>c. c \<noteq> CHR ''/'') (rev p))"

subsection \<open>Installer.\_\_init\_\_\<close>

text \<open>
  The constructor has no guest yet; it returns the installer or raises, together with
  the calls it made.  \<open>InstallerTreeMedia.validate_path\<close> and the
  \<open>InstallerTreeMedia\<close> constructor are the calls that touch the media.
\<close>

definition Installer_init ::
  "env \<Rightarrow> string option \<Rightarrow> string option \<Rightarrow> string option \<Rightarrow> string option \<Rightarrow> string option \<Rightarrow>
   event list \<Rightarrow> (exn + installer) \<times> event list" where
  "Installer_init env cdrom_arg location_arg install_bootdev_arg location_kernel location_initrd tr =
     (let self = \<lparr>livecd = False, extra_args = [], autostart = False,
                  install_bootdev = install_bootdev_arg, install_kernel = None,
                  install_initrd = None, install_cdrom_device = None,
                  defaults_are_set = False, cdrom = None, treemedia = None\<rparr>
      in if (truthy location_kernel \<or> truthy location_initrd) \<and> \<not> truthy location_arg
         then (Inl (ValueError
                 ''location kernel/initrd may only be specified with a location URL/path''), tr)
         else if (truthy location_kernel \<or> truthy location_initrd) \<and>
                 \<not> (truthy location_kernel \<and> truthy location_initrd)
         then (Inl (ValueError ''location kernel/initrd must be be specified as a pair''), tr)
         else
           (case (case cdrom_arg of
                    None \<Rightarrow> (Inr self, tr)
                  | Some c \<Rightarrow>
                      if c = [] then (Inr self, tr)
                      else (case validate_path env tr c of
                              Inl e \<Rightarrow> (Inl e, tr @ [ValidatePath c])
                            | Inr c' \<Rightarrow>
                                (Inr (self\<lparr>cdrom := Some c', install_bootdev := Some ''cdrom''\<rparr>),
                                 tr @ [ValidatePath c]))) of
              (Inl e, tr1) \<Rightarrow> (Inl e, tr1)
            | (Inr self1, tr1) \<Rightarrow>
                (case location_arg of
                   None \<Rightarrow> (Inr self1, tr1)
                 | Some l \<Rightarrow>
                     if l = [] then (Inr self1, tr1)
                     else (case new_treemedia env tr1 l location_kernel location_initrd of
                             Inl e \<Rightarrow> (Inl e, tr1 @ [NewTreeMedia l])
                           | Inr tm \<Rightarrow>
                               (Inr (self1\<lparr>treemedia := Some tm\<rparr>), tr1 @ [NewTreeMedia l])))))"

subsection \<open>Private helpers\<close>

definition cdrom_path :: "installer \<Rightarrow> string option" where
  "cdrom_path self =
     (case treemedia self of Some tm \<Rightarrow> treemedia_cdrom_path tm | None \<Rightarrow> cdrom self)"

text \<open>
  The loop over \<open>enumerate(guest.devices.disk)\<close> of \<open>_add_install_cdrom_device\<close>:
  the index of the first CDROM, where \<open>add_child(dev, idx=idx)\<close> puts the new device.
\<close>

fun first_cdrom_idx :: "(ref \<Rightarrow> disk) \<Rightarrow> (nat \<times> ref) list \<Rightarrow> nat option" where
  "first_cdrom_idx h [] = None"
| "first_cdrom_idx h ((idx, r) # rest) =
     (if is_cdrom (h r) then Some idx else first_cdrom_idx h rest)"

text \<open>\<open>guest.devices.add_child(dev, idx=idx)\<close> on the list of disks.\<close>

definition add_child :: "ref \<Rightarrow> nat \<Rightarrow> ref list \<Rightarrow> ref list" where
  "add_child r idx rs = take idx rs @ r # drop idx rs"

definition add_install_cdrom_device :: "env \<Rightarrow> unit action" where
  "add_install_cdrom_device env w =
     (if install_cdrom_device (inst w) \<noteq> None then (Inr (), w)
      else if \<not> truthy (cdrom_path (inst w)) then (Inr (), w)
      else
        (let r = next_ref w;
             dev = DeviceDisk_new env;
             dev = dev\<lparr>device := DEVICE_CDROM\<rparr>;
             dev = dev\<lparr>path := cdrom_path (inst w)\<rparr>;
             dev = sync_path_props env dev;
             w1 = w\<lparr>heap := (heap w)(r := dev), next_ref := Suc r\<rparr>
         in bind (call (DevValidate r) (dev_validate env (trace w1) dev))
              (\<lambda>_. update (\<lambda>w2.
                 let w3 = w2\<lparr>inst := (inst w2)\<lparr>install_cdrom_device := Some r\<rparr>\<rparr>;
                     ds = devices_disk (guest w3)
                 in case first_cdrom_idx (heap w3) (enumerate 0 ds) of
                      Some idx \<Rightarrow> w3\<lparr>guest := (guest w3)\<lparr>devices_disk := add_child r idx ds\<rparr>\<rparr>
                    | None \<Rightarrow> w3\<lparr>guest := (guest w3)\<lparr>devices_disk := ds @ [r]\<rparr>\<rparr>)) w1))"

text \<open>
  \<open>_remove_install_cdrom_media\<close>: the assignment \<open>dev.path = None\<close> and then
  \<open>dev.sync_path_props()\<close>, each of which may raise.
\<close>

definition remove_install_cdrom_media :: "env \<Rightarrow> unit action" where
  "remove_install_cdrom_media env w =
     (case install_cdrom_device (inst w) of
        None \<Rightarrow> (Inr (), w)
      | Some r \<Rightarrow>
          if livecd (inst w) then (Inr (), w)
          else if osinfo_is_windows (guest w) then (Inr (), w)
          else
            (case set_path_raises env (trace w) (heap w r) None of
               Some e \<Rightarrow> (Inl e, w)
             | None \<Rightarrow>
                 (let w1 = w\<lparr>heap := (heap w)(r := (heap w r)\<lparr>path := None\<rparr>)\<rparr>
                  in case sync_path_props_raises env (trace w1) (heap w1 r) of
                       Some e \<Rightarrow> (Inl e, w1)
                     | None \<Rightarrow>
                         (Inr (), w1\<lparr>heap := (heap w1)(r := sync_path_props env (heap w1 r))\<rparr>))))"

definition can_set_guest_bootorder :: "world \<Rightarrow> bool" where
  "can_set_guest_bootorder w =
     (\<not> os_is_container (guest w) \<and>
      \<not> truthy (os_kernel (guest w)) \<and>
      \<not> list_ex truthy_int
          (map boot_order (guest_disks w) @ devices_other_boot_order (guest w)))"

definition alter_bootconfig :: "world \<Rightarrow> world" where
  "alter_bootconfig w =
     (let self = inst w;
          g = (guest w)\<lparr>on_reboot := Some ''destroy''\<rparr>;
          g = (if truthy (install_kernel self) then g\<lparr>os_kernel := install_kernel self\<rparr> else g);
          g = (if truthy (install_initrd self) then g\<lparr>os_initrd := install_initrd self\<rparr> else g);
          g = (if extra_args self \<noteq> []
               then g\<lparr>os_kernel_args := Some (join '' '' (extra_args self))\<rparr> else g);
          w1 = w\<lparr>guest := g\<rparr>
      in case install_bootdev self of
           None \<Rightarrow> w1\<lparr>guest := g\<lparr>os_bootorder := []\<rparr>\<rparr>
         | Some bootdev \<Rightarrow>
             if bootdev \<noteq> [] \<and> can_set_guest_bootorder w1
             then w1\<lparr>guest := g\<lparr>os_bootorder := build_boot_order (guest_disks w1) bootdev\<rparr>\<rparr>
             else w1\<lparr>guest := g\<lparr>os_bootorder := []\<rparr>\<rparr>)"

subsection \<open>Internal API\<close>

definition prepare :: "env \<Rightarrow> unit action" where
  "prepare env w =
     (case treemedia (inst w) of
        None \<Rightarrow> (Inr (), w)
      | Some tm \<Rightarrow>
          (case treemedia_prepare env (trace w) (guest w) of
             Inl e \<Rightarrow> (Inl e, emit TreePrepare w)
           | Inr (k, i, a) \<Rightarrow>
               (let self = (inst w)\<lparr>install_kernel := k, install_initrd := i\<rparr>;
                    self = (case a of
                              None \<Rightarrow> self
                            | Some arg \<Rightarrow>
                                if arg \<noteq> [] \<and> \<not> environ_initrd_test env
                                then self\<lparr>extra_args := extra_args self @ [arg]\<rparr>
                                else self)
                in (Inr (), emit TreePrepare (w\<lparr>inst := self\<rparr>)))))"

definition cleanup :: "env \<Rightarrow> unit action" where
  "cleanup env w =
     (case treemedia (inst w) of
        None \<Rightarrow> (Inr (), w)
      | Some tm \<Rightarrow> call TreeCleanup (treemedia_cleanup env (trace w)) w)"

text \<open>
  \<open>DomainOs.BOOT_DEVICE_*\<close> are declared in \<open>virtinst.domain\<close>; they are the boot
  device names of the domain XML.
\<close>

definition BOOT_DEVICE_HARDDISK :: string where
  "BOOT_DEVICE_HARDDISK = ''hd''"

definition BOOT_DEVICE_CDROM :: string where
  "BOOT_DEVICE_CDROM = ''cdrom''"

definition BOOT_DEVICE_FLOPPY :: string where
  "BOOT_DEVICE_FLOPPY = ''fd''"

definition get_postinstall_bootdev :: "world \<Rightarrow> string" where
  "get_postinstall_bootdev w =
     (let self = inst w in
      if truthy (cdrom self) \<and> livecd self then BOOT_DEVICE_CDROM
      else if truthy (install_bootdev self)
      then (if filter (\<lambda>d. device d = DEVICE_DISK) (guest_disks w) \<noteq> []
            then BOOT_DEVICE_HARDDISK
            else (case install_bootdev self of Some b \<Rightarrow> b | None \<Rightarrow> []))
      else
        (case guest_disks w of
           [] \<Rightarrow> BOOT_DEVICE_HARDDISK
         | d # ds \<Rightarrow>
             if device d = DEVICE_DISK then BOOT_DEVICE_HARDDISK
             else if device d = DEVICE_CDROM then BOOT_DEVICE_CDROM
             else if device d = DEVICE_FLOPPY then BOOT_DEVICE_FLOPPY
             else BOOT_DEVICE_HARDDISK))"

subsection \<open>Public API\<close>

definition set_install_defaults :: "env \<Rightarrow> unit action" where
  "set_install_defaults env w =
     (if defaults_are_set (inst w) then (Inr (), w)
      else
        bind (add_install_cdrom_device env) (\<lambda>_.
        bind (update (\<lambda>w1.
                if os_bootorder (guest w1) = [] \<and> can_set_guest_bootorder w1
                then (let bootdev = get_postinstall_bootdev w1
                      in w1\<lparr>guest := (guest w1)
                           \<lparr>os_bootorder := build_boot_order (guest_disks w1) bootdev\<rparr>\<rparr>)
                else w1)) (\<lambda>_.
        bind (\<lambda>w2. case guest_set_defaults env (trace w2) (guest w2) (heap w2) of
                      Inl e \<Rightarrow> (Inl e, emit GuestSetDefaults w2)
                    | Inr (g, h) \<Rightarrow> (Inr (), emit GuestSetDefaults (w2\<lparr>guest := g, heap := h\<rparr>)))
          (\<lambda>_.
        update (\<lambda>w3. w3\<lparr>inst := (inst w3)\<lparr>defaults_are_set := True\<rparr>\<rparr>)))) w)"

definition has_install_phase :: "installer \<Rightarrow> bool" where
  "has_install_phase self =
     (if truthy (cdrom self) \<and> livecd self then False
      else truthy (cdrom self) \<or> truthy (install_bootdev self) \<or> treemedia self \<noteq> None)"

subsection \<open>Guest install handling\<close>

type_synonym bootconfig =
  "string list \<times> string option \<times> string option \<times> string option \<times> string option"

definition prepare_get_install_xml :: "guest \<Rightarrow> bootconfig" where
  "prepare_get_install_xml g =
     (os_bootorder g, os_kernel g, os_initrd g, os_kernel_args g, on_reboot g)"

definition finish_get_install_xml :: "bootconfig \<Rightarrow> world \<Rightarrow> world" where
  "finish_get_install_xml data w =
     (case data of
        (bo, k, i, a, r) \<Rightarrow>
          w\<lparr>guest := (guest w)\<lparr>os_bootorder := bo, os_kernel := k, os_initrd := i,
                                os_kernel_args := a, on_reboot := r\<rparr>\<rparr>)"

definition guest_get_xml :: "env \<Rightarrow> string action" where
  "guest_get_xml env w = (get_xml env (trace w) (guest w) (guest_disks w), emit GetXml w)"

text \<open>
  The \<open>finally\<close> block of \<open>_get_install_xml\<close> clears the install media first and
  restores the snapshot last; when clearing the media raises, the restore is not
  reached.
\<close>

definition get_install_xml :: "env \<Rightarrow> string action" where
  "get_install_xml env w =
     (let data = prepare_get_install_xml (guest w)
      in try_finally
           (bind (update alter_bootconfig) (\<lambda>_. guest_get_xml env))
           (bind (remove_install_cdrom_media env) (\<lambda>_.
            update (finish_get_install_xml data))) w)"

definition build_xml :: "env \<Rightarrow> (string option \<times> string) action" where
  "build_xml env w =
     bind (if has_install_phase (inst w)
           then bind (get_install_xml env) (\<lambda>x. returns (Some x))
           else returns None) (\<lambda>install_xml.
     bind (guest_get_xml env) (\<lambda>final_xml.
     returns (install_xml, final_xml))) w"

definition defineXML :: "env \<Rightarrow> string \<Rightarrow> domain action" where
  "defineXML env xml w =
     (let r = conn_defineXML env (trace w) xml in (r, emit (DefineXML xml r) w))"

definition createXML :: "env \<Rightarrow> string \<Rightarrow> domain action" where
  "createXML env xml w =
     (let r = conn_createXML env (trace w) xml in (r, emit (CreateXML xml r) w))"

text \<open>
  \<open>try: domain.create() except Exception: try: domain.undefine() except Exception:
  pass; raise\<close>: whatever \<open>undefine\<close> does, the exception of \<open>create\<close> is raised.
\<close>

definition manual_transient_create ::
  "env \<Rightarrow> string option \<Rightarrow> string \<Rightarrow> bool \<Rightarrow> domain action" where
  "manual_transient_create env install_xml final_xml needs_boot =
     bind (defineXML env (py_or install_xml final_xml)) (\<lambda>domain.
     if \<not> needs_boot then returns domain
     else
       bind (\<lambda>w. case call (DomainCreate domain) (domain_create env (trace w) domain) w of
                    (Inl e, w1) \<Rightarrow>
                      (case call (DomainUndefine domain)
                              (domain_undefine env (trace w1) domain) w1 of
                         (u, w2) \<Rightarrow> (Inl e, w2))
                  | (Inr u, w1) \<Rightarrow> (Inr u, w1)) (\<lambda>_.
       if truthy install_xml \<and> install_xml \<noteq> Some final_xml
       then defineXML env final_xml
       else returns domain))"

text \<open>
  In \<open>_create_guest\<close> the variable \<open>domain\<close> is bound by one of the branches;
  \<open>None\<close> below is the unbound variable.  What \<open>domain.XMLDesc(0)\<close> answers only
  reaches the debug log.
\<close>

definition create_guest ::
  "env \<Rightarrow> string option \<Rightarrow> string \<Rightarrow> bool \<Rightarrow> bool \<Rightarrow> domain action" where
  "create_guest env install_xml final_xml doboot transient w =
     (let needs_boot = doboot \<or> has_install_phase (inst w)
      in bind (update (emit (MeterStart ''Creating domain...''))) (\<lambda>_.
         bind (if guest_type (guest w) = ''vz''
               then (if transient
                     then raise (RuntimeError
                            (''Domain type '' @ [CHR 0x27] @ ''vz'' @ [CHR 0x27] @
                             '' doesn'' @ [CHR 0x27] @ ''t support transient installs.''))
                     else bind (manual_transient_create env install_xml final_xml needs_boot)
                            (\<lambda>d. returns (Some d)))
               else
                 bind (if transient \<or> needs_boot
                       then bind (createXML env (py_or install_xml final_xml))
                              (\<lambda>d. returns (Some d))
                       else returns None) (\<lambda>domain.
                 if \<not> transient
                 then bind (defineXML env final_xml) (\<lambda>d. returns (Some d))
                 else returns domain)) (\<lambda>domain.
         case domain of
           None \<Rightarrow> raise (OtherException ''UnboundLocalError'')
         | Some d \<Rightarrow> bind (update (emit (DomainXMLDesc d))) (\<lambda>_. returns d))) w)"

definition flag_autostart :: "env \<Rightarrow> domain \<Rightarrow> unit action" where
  "flag_autostart env domain w =
     (case domain_setAutostart env (trace w) domain of
        None \<Rightarrow> (Inr (), emit (SetAutostart domain) w)
      | Some (LibvirtError nosupport m) \<Rightarrow>
          if nosupport
          then (Inr (), emit (LogWarning
                  ''Could not set autostart flag: libvirt connection does not support autostart.'')
                  (emit (SetAutostart domain) w))
          else (Inl (LibvirtError nosupport m), emit (SetAutostart domain) w)
      | Some e \<Rightarrow> (Inl e, emit (SetAutostart domain) w))"

subsection \<open>Public install API\<close>

datatype install_result =
    ReturnedXml "string option" string
  | ReturnedNone
  | ReturnedDomain domain

fun build_storage_loop :: "env \<Rightarrow> ref list \<Rightarrow> unit action" where
  "build_storage_loop env [] w = (Inr (), w)"
| "build_storage_loop env (r # rest) w =
     (case build_storage env (trace w) (heap w r) of
        Inl e \<Rightarrow> (Inl e, emit (BuildStorage r) w)
      | Inr d \<Rightarrow> build_storage_loop env rest (emit (BuildStorage r) (w\<lparr>heap := (heap w)(r := d)\<rparr>)))"

definition start_install :: "env \<Rightarrow> bool \<Rightarrow> bool \<Rightarrow> bool \<Rightarrow> bool \<Rightarrow> install_result action" where
  "start_install env dry return_xml doboot transient =
     bind (\<lambda>w. call (ValidateName (name (guest w)))
                 (validate_name env (trace w) (name (guest w))) w) (\<lambda>_.
     bind (set_install_defaults env) (\<lambda>_.
     try_finally
       (bind (prepare env) (\<lambda>_.
        bind (\<lambda>w. if \<not> dry then build_storage_loop env (devices_disk (guest w)) w
                   else returns () w) (\<lambda>_.
        bind (build_xml env) (\<lambda>(install_xml, final_xml).
        if return_xml then returns (ReturnedXml install_xml final_xml)
        else if dry then returns ReturnedNone
        else
          bind (create_guest env install_xml final_xml doboot transient) (\<lambda>domain.
          bind (\<lambda>w. if autostart (inst w) then flag_autostart env domain w
                     else returns () w) (\<lambda>_.
          returns (ReturnedDomain domain)))))))
       (cleanup env)))"

definition get_created_disks :: "world \<Rightarrow> ref list" where
  "get_created_disks w = filter (\<lambda>r. storage_was_created (heap w r)) (devices_disk (guest w))"

text \<open>
  The body of the \<open>try\<close> in \<open>cleanup_created_disks\<close> after \<open>meter.start\<close>: the
  volume is deleted through the storage layer when the disk has one, the file is
  unlinked otherwise.
\<close>

definition remove_disk :: "env \<Rightarrow> disk \<Rightarrow> string \<Rightarrow> unit action" where
  "remove_disk env d p w =
     (case vol_object d of
        Some vol \<Rightarrow> call (VolDelete vol) (vol_delete env (trace w) vol) w
      | None \<Rightarrow> call (Unlink p) (os_unlink env (trace w) p) w)"

fun cleanup_created_disks_loop :: "env \<Rightarrow> ref list \<Rightarrow> unit action" where
  "cleanup_created_disks_loop env [] w = (Inr (), w)"
| "cleanup_created_disks_loop env (r # rest) w =
     (let d = heap w r in
      case path d of
        None \<Rightarrow> (Inl (TypeError ''expected str, bytes or os.PathLike object, not NoneType''), w)
      | Some p \<Rightarrow>
          (let nm = basename p;
               w1 = emit (MeterStart (''Removing disk '' @ [CHR 0x27] @ nm @ [CHR 0x27])) w
           in case remove_disk env d p w1 of
                (Inr u, w2) \<Rightarrow> cleanup_created_disks_loop env rest (emit MeterEnd w2)
              | (Inl e, w2) \<Rightarrow>
                  cleanup_created_disks_loop env rest
                    (emit (LogError (''Failed to remove disk '' @ [CHR 0x27] @ nm @ [CHR 0x27] @
                                     '': '' @ exn_str e)) w2)))"

definition cleanup_created_disks :: "env \<Rightarrow> unit action" where
  "cleanup_created_disks env w =
     (let clean_disks = get_created_disks w
      in if clean_disks = [] then (Inr (), w)
         else cleanup_created_disks_loop env clean_disks w)"

section \<open>Relations between the state before and after a call\<close>

text \<open>The events of \<open>w'\<close> that are not yet in \<open>w\<close>.\<close>

definition new_events :: "world \<Rightarrow> world \<Rightarrow> event list" where
  "new_events w w' = drop (length (trace w)) (trace w')"

text \<open>\<open>w'\<close> continues the trace of \<open>w\<close>, and every new event satisfies \<open>P\<close>.\<close>

definition steps :: "(event \<Rightarrow> bool) \<Rightarrow> world \<Rightarrow> world \<Rightarrow> bool" where
  "steps P w w' =
     (take (length (trace w)) (trace w') = trace w \<and> list_all P (new_events w w'))"

fun is_removal :: "event \<Rightarrow> bool" where
  "is_removal (VolDelete v) = True"
| "is_removal (Unlink p) = True"
| "is_removal e = False"

fun is_autostart :: "event \<Rightarrow> bool" where
  "is_autostart (SetAutostart d) = True"
| "is_autostart e = False"

definition routine :: "event \<Rightarrow> bool" where
  "routine e = (\<not> is_removal e \<and> \<not> is_autostart e)"

definition no_removal :: "event \<Rightarrow> bool" where
  "no_removal e = (\<not> is_removal e)"

text \<open>The connection answered this call with the domain \<open>d\<close>.\<close>

fun makes_domain :: "domain \<Rightarrow> event \<Rightarrow> bool" where
  "makes_domain d (DefineXML xml r) = (r = Inr d)"
| "makes_domain d (CreateXML xml r) = (r = Inr d)"
| "makes_domain d e = False"

text \<open>
  Every \<open>SetAutostart d\<close> in a list of events comes after an event that made the
  domain \<open>d\<close>; \<open>seen\<close> are the events before the list.
\<close>

fun autostart_after_creation :: "event list \<Rightarrow> event list \<Rightarrow> bool" where
  "autostart_after_creation seen [] = True"
| "autostart_after_creation seen (e # es) =
     ((case e of SetAutostart d \<Rightarrow> list_ex (makes_domain d) seen | _ \<Rightarrow> True) \<and>
      autostart_after_creation (seen @ [e]) es)"

definition autostart_disciplined :: "world \<Rightarrow> world \<Rightarrow> bool" where
  "autostart_disciplined w w' =
     (take (length (trace w)) (trace w') = trace w \<and>
      autostart_after_creation [] (new_events w w'))"

definition same_bootconfig :: "world \<Rightarrow> world \<Rightarrow> bool" where
  "same_bootconfig w w' =
     (prepare_get_install_xml (guest w') = prepare_get_install_xml (guest w))"

definition calm :: "world \<Rightarrow> world \<Rightarrow> bool" where
  "calm w w' = (same_bootconfig w w' \<and> steps routine w w')"



text \<open>Calling \<open>set_install_defaults\<close> \<open>n\<close> times in a row.\<close>

fun set_install_defaults_times :: "env \<Rightarrow> nat \<Rightarrow> unit action" where
  "set_install_defaults_times env 0 = returns ()"
| "set_install_defaults_times env (Suc n) =
     bind (set_install_defaults env) (\<lambda>_. set_install_defaults_times env n)"

text \<open>
  What \<open>cleanup_created_disks\<close> does for one disk: it announces the removal on the
  meter, removes the volume or the file, and reports the end on the meter or, when
  the removal raised, the failure in the log.
\<close>

definition removal_start :: "disk \<Rightarrow> event" where
  "removal_start d =
     MeterStart (''Removing disk '' @ [CHR 0x27] @
                 basename (case path d of Some p \<Rightarrow> p | None \<Rightarrow> []) @ [CHR 0x27])"

definition removal_call :: "disk \<Rightarrow> event" where
  "removal_call d =
     (case vol_object d of
        Some vol \<Rightarrow> VolDelete vol
      | None \<Rightarrow> Unlink (case path d of Some p \<Rightarrow> p | None \<Rightarrow> []))"

definition removal_failure :: "disk \<Rightarrow> exn \<Rightarrow> event" where
  "removal_failure d e =
     LogError (''Failed to remove disk '' @ [CHR 0x27] @
               basename (case path d of Some p \<Rightarrow> p | None \<Rightarrow> []) @ [CHR 0x27] @
               '': '' @ exn_str e)"

definition removal_events :: "disk \<Rightarrow> exn option \<Rightarrow> event list" where
  "removal_events d answer =
     [removal_start d, removal_call d,
      (case answer of None \<Rightarrow> MeterEnd | Some e \<Rightarrow> removal_failure d e)]"

text \<open>
  What the storage layer answers to the removal call for a disk, when the calls made
  before it are \<open>tr\<close>: \<open>None\<close> when the removal returns, the exception when it
  raises.
\<close>

definition removal_answer :: "env \<Rightarrow> event list \<Rightarrow> disk \<Rightarrow> exn option" where
  "removal_answer env tr d =
     (case vol_object d of
        Some vol \<Rightarrow> vol_delete env (tr @ [removal_start d]) vol
      | None \<Rightarrow> os_unlink env (tr @ [removal_start d]) (case path d of Some p \<Rightarrow> p | None \<Rightarrow> []))"

text \<open>The answers for a list of disks removed one after the other.\<close>

fun removal_answers :: "env \<Rightarrow> (ref \<Rightarrow> disk) \<Rightarrow> event list \<Rightarrow> ref list \<Rightarrow> exn option list" where
  "removal_answers env h tr [] = []"
| "removal_answers env h tr (r # rs) =
     (let answer = removal_answer env tr (h r)
      in answer # removal_answers env h (tr @ removal_events (h r) answer) rs)"

section \<open>Detection\<close>

text \<open>
  The test module calls \<open>virtinst.urldetect\<close> and \<open>virtinst.urlfetcher\<close>, whose
  sources are not embedded here.  The detection engine below follows the
  specification of the repository.
\<close>

record fetcher =
  fetcher_location :: string
  hasFile :: "string \<Rightarrow> bool"

record guest_shape =
  shape_arch :: string
  shape_hvm :: bool
  shape_os_variant :: "string option"

record descriptor =
  family_tag :: string
  os_variant :: "string option"
  kernel_path :: string
  initrd_path :: string
  kernel_args :: "string option"

text \<open>
  Modelled from the spec: a distro family of the signature matcher (\<open>urldetect\<close>,
  missing).  It has the marker files of its tree layout, a check of the tree's
  metadata, the variants that select it in short-circuit mode, the builder of its
  descriptor, and the pattern its kernel path must satisfy, if it defines one.
\<close>

record family =
  tag :: string
  hinted_by :: "string list"
  markers :: "string list"
  metadata_ok :: "fetcher \<Rightarrow> bool"
  buildDescriptor :: "fetcher \<Rightarrow> guest_shape \<Rightarrow> exn + descriptor"
  kernel_name_ok :: "(string \<Rightarrow> bool) option"

text \<open>
  Modelled from the spec: \<open>matches(fetcher)\<close> of a family (\<open>urldetect\<close>, missing)
  tests the fetched tree for marker files and metadata of the family; a descriptor is
  never inferred from the location string alone.
\<close>

definition matches :: "family \<Rightarrow> fetcher \<Rightarrow> bool" where
  "matches fam f = (list_ex (hasFile f) (markers fam) \<and> metadata_ok fam f)"

text \<open>
  Modelled from the spec: the families the detection engine (\<open>urldetect\<close>, missing)
  tries, in priority order: all of them, or with an asserted OS variant those
  associated with it.
\<close>

definition candidates :: "family list \<Rightarrow> guest_shape \<Rightarrow> family list" where
  "candidates families shape =
     (case shape_os_variant shape of
        None \<Rightarrow> families
      | Some v \<Rightarrow> filter (\<lambda>fam. v \<in> set (hinted_by fam)) families)"

text \<open>
  Modelled from the spec: the error of a detection in which no family matched
  (\<open>urldetect\<close>, missing).  Its message names the location and suggests the common
  cause; \<open>test001BadURL\<close> expects a \<open>ValueError\<close> with \<open>maybe you mistyped\<close> in it.
\<close>

definition detection_failure :: "string \<Rightarrow> exn" where
  "detection_failure loc =
     ValueError (''Could not find an installable distribution at '' @ loc @
                 '': the location could not be accessed, maybe you mistyped?'')"

text \<open>
  Modelled from the spec: \<open>detect(fetcher, guestShape)\<close> of the detection engine
  (\<open>urldetect.getDistroStore\<close>, missing).  The first family that matches wins, with
  no fallback when its builder fails; a kernel path that does not satisfy the family's
  pattern is a failure.
\<close>

definition detect :: "family list \<Rightarrow> fetcher \<Rightarrow> guest_shape \<Rightarrow> exn + descriptor" where
  "detect families f shape =
     (case find (\<lambda>fam. matches fam f) (candidates families shape) of
        None \<Rightarrow> Inl (detection_failure (fetcher_location f))
      | Some fam \<Rightarrow>
          (case buildDescriptor fam f shape of
             Inl e \<Rightarrow> Inl e
           | Inr d \<Rightarrow>
               (case kernel_name_ok fam of
                  None \<Rightarrow> Inr d
                | Some ok \<Rightarrow>
                    if ok (kernel_path d) then Inr d
                    else Inl (ValueError (''Kernel path '' @ kernel_path d @
                                          '' does not look like a kernel of '' @ tag fam)))))"

subsection \<open>tests/test\_urls.py: the test of a bad URL\<close>

text \<open>
  \<open>_fetchWrapper\<close> builds the fetcher for a URL and hands it to the callback;
  \<open>fetcherForURI\<close> is a parameter.
\<close>

definition fetchWrapper :: "(string \<Rightarrow> exn + 'f) \<Rightarrow> string \<Rightarrow> ('f \<Rightarrow> exn + 'r) \<Rightarrow> exn + 'r" where
  "fetchWrapper fetcherForURI url cb =
     (case fetcherForURI url of Inl e \<Rightarrow> Inl e | Inr fetcher \<Rightarrow> cb fetcher)"

text \<open>
  How a test ends: it passes, an assertion fails, or an exception leaves it.  In
  \<open>test001BadURL\<close> the \<open>AssertionError\<close> raised in the \<open>try\<close> block is not a
  \<open>ValueError\<close> and leaves the test; \<open>getDistroStore fetcher i\<close> is what the
  detection call of iteration \<open>i\<close> of the retry helper does.
\<close>

datatype test_outcome = TestPassed | TestFailed string | TestError exn

definition test001BadURL ::
  "(string \<Rightarrow> exn + 'f) \<Rightarrow> ('f \<Rightarrow> nat \<Rightarrow> exn + 's) \<Rightarrow> test_outcome" where
  "test001BadURL fetcherForURI getDistroStore =
     (let badurl = ''http://aksdkakskdfa-idontexist.com/foo/tree'';
          cb = (\<lambda>fetcher. fst (storeForDistro (getDistroStore fetcher)))
      in case fetchWrapper fetcherForURI badurl cb of
           Inr store \<Rightarrow> TestFailed ''Expected URL failure''
         | Inl (ValueError m) \<Rightarrow>
             if str_contains ''maybe you mistyped'' m then TestPassed
             else TestFailed ''False is not true''
         | Inl e \<Rightarrow> TestError e)"

section \<open>Concrete configurations\<close>

text \<open>A detection call that meets two gateway errors and then a missing tree.\<close>

definition flaky :: "nat \<Rightarrow> exn + string" where
  "flaky i = (if i < 2 then Inl (OtherException ''HTTP Error 502: Bad Gateway'')
              else Inl (ValueError ''no such tree''))"

text \<open>Collaborators that never raise, and a guest with a CDROM and a hard disk.\<close>

definition plain_env :: env where
  "plain_env =
     \<lparr>validate_path = (\<lambda>tr p. Inr p),
      new_treemedia = (\<lambda>tr l k i. Inr \<lparr>location = l, treemedia_cdrom_path = None\<rparr>),
      validate_name = (\<lambda>tr n. None),
      DeviceDisk_new = \<lparr>device = DEVICE_DISK, path = None, boot_order = None,
                        storage_was_created = False, vol_object = None\<rparr>,
      sync_path_props = (\<lambda>d. d),
      dev_validate = (\<lambda>tr d. None),
      guest_set_defaults = (\<lambda>tr g h. Inr (g, h)),
      treemedia_prepare = (\<lambda>tr g. Inr (Some ''/scratch/vmlinuz'', Some ''/scratch/initrd'', None)),
      environ_initrd_test = False,
      build_storage = (\<lambda>tr d. Inr d),
      get_xml = (\<lambda>tr g ds. Inr (join '','' (os_bootorder g))),
      conn_defineXML = (\<lambda>tr xml. Inr 7),
      conn_createXML = (\<lambda>tr xml. Inr 7),
      domain_create = (\<lambda>tr d. None),
      domain_undefine = (\<lambda>tr d. None),
      domain_setAutostart = (\<lambda>tr d. None),
      treemedia_cleanup = (\<lambda>tr. None),
      vol_delete = (\<lambda>tr v. None),
      os_unlink = (\<lambda>tr p. None),
      set_path_raises = (\<lambda>tr d p. None),
      sync_path_props_raises = (\<lambda>tr d. None)\<rparr>"

definition plain_guest :: guest where
  "plain_guest =
     \<lparr>name = ''vm1'', guest_type = ''kvm'', os_bootorder = [''hd''], os_kernel = None,
      os_initrd = None, os_kernel_args = None, on_reboot = Some ''restart'',
      os_is_container = False, osinfo_is_windows = False, devices_disk = [0, 1],
      devices_other_boot_order = [None]\<rparr>"

definition plain_heap :: "ref \<Rightarrow> disk" where
  "plain_heap r =
     (if r = 0
      then \<lparr>device = DEVICE_DISK, path = Some ''/var/lib/images/vm1.img'', boot_order = None,
            storage_was_created = True, vol_object = None\<rparr>
      else \<lparr>device = DEVICE_CDROM, path = Some ''/isos/old.iso'', boot_order = None,
            storage_was_created = False, vol_object = None\<rparr>)"

definition plain_installer :: installer where
  "plain_installer =
     \<lparr>livecd = False, extra_args = [], autostart = True, install_bootdev = Some ''cdrom'',
      install_kernel = None, install_initrd = None, install_cdrom_device = None,
      defaults_are_set = False, cdrom = Some ''/isos/install.iso'', treemedia = None\<rparr>"

definition plain_world :: world where
  "plain_world =
     \<lparr>guest = plain_guest, inst = plain_installer, heap = plain_heap, next_ref = 2, trace = []\<rparr>"

text \<open>The XML rendering fails.\<close>

definition no_render_env :: env where
  "no_render_env = plain_env\<lparr>get_xml := (\<lambda>tr g ds. Inl (RuntimeError ''render failed''))\<rparr>"




text \<open>The domain does not start, and cannot be undefined either.\<close>

definition boot_failure_env :: env where
  "boot_failure_env =
     plain_env\<lparr>domain_create := (\<lambda>tr d. Some (LibvirtError False ''boot failed'')),
               domain_undefine := (\<lambda>tr d. Some (LibvirtError False ''undefine failed''))\<rparr>"

text \<open>The host has no autostart support.\<close>

definition no_autostart_env :: env where
  "no_autostart_env =
     plain_env\<lparr>domain_setAutostart := (\<lambda>tr d. Some (LibvirtError True ''unsupported''))\<rparr>"

text \<open>The host refuses to set the autostart flag.\<close>

definition denied_autostart_env :: env where
  "denied_autostart_env =
     plain_env\<lparr>domain_setAutostart := (\<lambda>tr d. Some (LibvirtError False ''access denied''))\<rparr>"

text \<open>
  Files cannot be unlinked.  The guest has a created image file, an old CDROM, and a
  created storage volume.
\<close>

definition stuck_file_env :: env where
  "stuck_file_env = plain_env\<lparr>os_unlink := (\<lambda>tr p. Some (OtherException ''Permission denied''))\<rparr>"

definition created_heap :: "ref \<Rightarrow> disk" where
  "created_heap r =
     (if r = 0
      then \<lparr>device = DEVICE_DISK, path = Some ''/var/lib/images/vm1.img'', boot_order = None,
            storage_was_created = True, vol_object = None\<rparr>
      else if r = 1
      then \<lparr>device = DEVICE_CDROM, path = Some ''/isos/old.iso'', boot_order = None,
            storage_was_created = False, vol_object = None\<rparr>
      else \<lparr>device = DEVICE_DISK, path = Some ''/pool/vm1-data'', boot_order = None,
            storage_was_created = True, vol_object = Some ''vm1-data''\<rparr>)"

definition created_world :: world where
  "created_world =
     \<lparr>guest = plain_guest\<lparr>devices_disk := [0, 1, 2]\<rparr>, inst = plain_installer,
      heap = created_heap, next_ref = 3, trace = []\<rparr>"

text \<open>A fetcher for a host that does not exist, and two families.\<close>

definition unreachable :: "string \<Rightarrow> fetcher" where
  "unreachable url = \<lparr>fetcher_location = url, hasFile = (\<lambda>p. False)\<rparr>"

definition sample_families :: "family list" where
  "sample_families =
     [\<lparr>tag = ''fedora'', hinted_by = [''fedora29''], markers = [''.treeinfo'', ''Fedora''],
       metadata_ok = (\<lambda>f. True),
       buildDescriptor = (\<lambda>f shape. Inr \<lparr>family_tag = ''fedora'', os_variant = Some ''fedora29'',
          kernel_path = ''images/pxeboot/vmlinuz'', initrd_path = ''images/pxeboot/initrd.img'',
          kernel_args = None\<rparr>),
       kernel_name_ok = None\<rparr>,
      \<lparr>tag = ''generic'', hinted_by = [], markers = [''.treeinfo''],
       metadata_ok = (\<lambda>f. True),
       buildDescriptor = (\<lambda>f shape. Inl (ValueError ''no kernel'')),
       kernel_name_ok = None\<rparr>]"

definition hvm_shape :: guest_shape where
  "hvm_shape = \<lparr>shape_arch = ''x86_64'', shape_hvm = True, shape_os_variant = None\<rparr>"

section \<open>Boot order\<close>

lemma build_boot_order_loop_eq:
  "build_boot_order_loop ds bo =
     (if (\<exists>d \<in> set ds. device d = DEVICE_DISK) \<and> ''hd'' \<notin> set bo
      then bo @ [''hd''] else bo)"
  by (induction ds) (auto simp: Let_def)

text \<open>
  C2.  The computed boot order begins with the requested boot device.  When the guest
  has a disk device of kind DISK, \<open>hd\<close> follows as the second entry unless the
  requested device is \<open>hd\<close> already; otherwise the order is the requested device alone.
  One hard disk and \<open>cdrom\<close> give \<open>[cdrom, hd]\<close>; no disks and \<open>network\<close> give
  \<open>[network]\<close>.
\<close>

theorem build_boot_order_spec:
  "hd (build_boot_order ds bootdev) = bootdev \<and>
   build_boot_order ds bootdev =
     (if (\<exists>d \<in> set ds. device d = DEVICE_DISK) \<and> bootdev \<noteq> ''hd''
      then [bootdev, ''hd''] else [bootdev]) \<and>
   (device d = DEVICE_DISK \<longrightarrow> build_boot_order [d] ''cdrom'' = [''cdrom'', ''hd'']) \<and>
   build_boot_order [] ''network'' = [''network'']"
proof -
  have shape: "build_boot_order ds bootdev =
     (if (\<exists>d \<in> set ds. device d = DEVICE_DISK) \<and> bootdev \<noteq> ''hd''
      then [bootdev, ''hd''] else [bootdev])"
    unfolding build_boot_order_def by (simp add: build_boot_order_loop_eq)
  have first: "hd (build_boot_order ds bootdev) = bootdev"
    by (simp add: shape)
  have ex1: "device d = DEVICE_DISK \<longrightarrow> build_boot_order [d] ''cdrom'' = [''cdrom'', ''hd'']"
    by (simp add: build_boot_order_def)
  have ex2: "build_boot_order [] ''network'' = [''network'']"
    by (simp add: build_boot_order_def)
  from first shape ex1 ex2 show ?thesis by blast
qed

theorem build_boot_order_spec_witness:
  "build_boot_order
     [\<lparr>device = DEVICE_CDROM, path = Some ''/iso'', boot_order = None,
       storage_was_created = False, vol_object = None\<rparr>,
      \<lparr>device = DEVICE_DISK, path = Some ''/img'', boot_order = None,
       storage_was_created = True, vol_object = None\<rparr>] ''network'' = [''network'', ''hd''] \<and>
   build_boot_order
     [\<lparr>device = DEVICE_DISK, path = Some ''/img'', boot_order = None,
       storage_was_created = True, vol_object = None\<rparr>] ''cdrom'' = [''cdrom'', ''hd'']"
  using build_boot_order_spec
    [of "[\<lparr>device = DEVICE_CDROM, path = Some ''/iso'', boot_order = None,
           storage_was_created = False, vol_object = None\<rparr>,
          \<lparr>device = DEVICE_DISK, path = Some ''/img'', boot_order = None,
           storage_was_created = True, vol_object = None\<rparr>]" "''network''"
        "\<lparr>device = DEVICE_DISK, path = Some ''/img'', boot_order = None,
           storage_was_created = True, vol_object = None\<rparr>"]
  by simp

section \<open>The retry helper\<close>

lemma storeForDistro_loop_stop:
  "k < length js \<Longrightarrow> \<forall>j<k. proxy_failure (gds (js ! j)) \<Longrightarrow>
   \<not> proxy_failure (gds (js ! k)) \<Longrightarrow>
   storeForDistro_loop gds js = (gds (js ! k), retries k @ [GetDistroStore])"
proof (induction js arbitrary: k)
  case Nil
  then show ?case by simp
next
  case (Cons a js)
  show ?case
  proof (cases k)
    case 0
    with Cons.prems show ?thesis
      by (auto simp: proxy_failure_def retries_def split: sum.splits)
  next
    case (Suc m)
    from Cons.prems Suc have a: "proxy_failure (gds a)" by auto
    from Cons.prems Suc have m: "m < length js" "\<forall>j<m. proxy_failure (gds (js ! j))"
      "\<not> proxy_failure (gds (js ! m))" by auto
    from Cons.IH [OF m] a Suc show ?thesis
      by (auto simp: proxy_failure_def retries_def split: sum.splits)
  qed
qed

lemma storeForDistro_loop_exhaust:
  "\<forall>i \<in> set js. proxy_failure (gds i) \<Longrightarrow>
   storeForDistro_loop gds js =
     (Inl (RuntimeError ''No active exception to reraise''), retries (length js))"
  by (induction js) (auto simp: proxy_failure_def retries_def split: sum.splits)

lemma storeForDistro_loop_attempts:
  "length (filter (\<lambda>e. e = GetDistroStore) (snd (storeForDistro_loop gds js))) \<le> length js"
  by (induction js) (auto split: sum.splits prod.splits)

lemma storeForDistro_loop_sleeps:
  "Sleep ms \<in> set (snd (storeForDistro_loop gds js)) \<Longrightarrow> ms = 500"
  by (induction js) (auto split: sum.splits prod.splits if_splits)

text \<open>
  C4.  Detection is attempted at most 10 times.  An attempt is repeated only after a
  failure whose message contains \<open>502\<close>, and each such failure is followed by one
  sleep of 500 ms: when the first \<open>k < 10\<close> attempts fail that way and attempt \<open>k\<close>
  does not, the helper ends with the outcome of attempt \<open>k\<close> (its result, or its
  exception, raised at once with no sleep after it), after exactly \<open>k\<close> rounds of
  attempt and sleep.  When all 10 attempts fail that way the helper raises.
\<close>

theorem storeForDistro_retry:
  "(k < 10 \<and> (\<forall>i<k. proxy_failure (gds i)) \<and> \<not> proxy_failure (gds k) \<longrightarrow>
      storeForDistro gds = (gds k, retries k @ [GetDistroStore])) \<and>
   ((\<forall>i<10. proxy_failure (gds i)) \<longrightarrow>
      storeForDistro gds =
        (Inl (RuntimeError ''No active exception to reraise''), retries 10)) \<and>
   length (filter (\<lambda>e. e = GetDistroStore) (snd (storeForDistro gds))) \<le> 10 \<and>
   (\<forall>ms. Sleep ms \<in> set (snd (storeForDistro gds)) \<longrightarrow> ms = 500)"
proof -
  have stop: "storeForDistro gds = (gds k, retries k @ [GetDistroStore])"
    if "k < 10" "\<forall>i<k. proxy_failure (gds i)" "\<not> proxy_failure (gds k)"
  proof -
    have "storeForDistro_loop gds [0..<10] = (gds ([0..<10] ! k), retries k @ [GetDistroStore])"
      using that by (intro storeForDistro_loop_stop) auto
    with that show ?thesis by (simp add: storeForDistro_def del: upt_Suc)
  qed
  have exhaust: "storeForDistro gds =
        (Inl (RuntimeError ''No active exception to reraise''), retries 10)"
    if "\<forall>i<10. proxy_failure (gds i)"
    using storeForDistro_loop_exhaust [of "[0..<10]" gds] that
    by (simp add: storeForDistro_def del: upt_Suc)
  have bound: "length (filter (\<lambda>e. e = GetDistroStore) (snd (storeForDistro gds))) \<le> 10"
    using storeForDistro_loop_attempts [of gds "[0..<10]"]
    by (simp add: storeForDistro_def del: upt_Suc)
  have sleeps: "\<forall>ms. Sleep ms \<in> set (snd (storeForDistro gds)) \<longrightarrow> ms = 500"
    using storeForDistro_loop_sleeps [of _ gds "[0..<10]"]
    by (auto simp add: storeForDistro_def simp del: upt_Suc)
  from stop exhaust bound sleeps show ?thesis by blast
qed

theorem storeForDistro_retry_witness:
  "storeForDistro flaky =
     (Inl (ValueError ''no such tree''),
      [GetDistroStore, Sleep 500, GetDistroStore, Sleep 500, GetDistroStore])"
proof -
  have fails: "\<forall>i<2. proxy_failure (flaky i)"
    by (simp add: flaky_def proxy_failure_def)
  have stops: "\<not> proxy_failure (flaky 2)"
    by (simp add: flaky_def proxy_failure_def)
  have "storeForDistro flaky = (flaky 2, retries 2 @ [GetDistroStore])"
    using storeForDistro_retry [of 2 flaky] fails stops by simp
  then show ?thesis
    by (simp add: flaky_def retries_def numeral_2_eq_2)
qed

section \<open>How the installer's functions change the state\<close>

lemma steps_iff: "steps P w w' \<longleftrightarrow> (\<exists>evs. trace w' = trace w @ evs \<and> list_all P evs)"
proof
  assume "steps P w w'"
  then have "trace w' = trace w @ new_events w w'" "list_all P (new_events w w')"
    unfolding steps_def new_events_def by (metis append_take_drop_id)+
  then show "\<exists>evs. trace w' = trace w @ evs \<and> list_all P evs" by blast
next
  assume "\<exists>evs. trace w' = trace w @ evs \<and> list_all P evs"
  then show "steps P w w'" by (auto simp: steps_def new_events_def)
qed

lemma steps_refl: "steps P w w"
  by (simp add: steps_iff)

lemma steps_trans: "steps P a b \<Longrightarrow> steps P b c \<Longrightarrow> steps P a c"
  by (auto simp: steps_iff)

lemma steps_mono: "steps P w w' \<Longrightarrow> (\<And>e. P e \<Longrightarrow> Q e) \<Longrightarrow> steps Q w w'"
  by (auto simp: steps_iff list_all_iff)

lemma steps_trace: "trace w' = trace w @ evs \<Longrightarrow> list_all P evs \<Longrightarrow> steps P w w'"
  by (auto simp: steps_iff)

lemma same_bootconfig_refl: "same_bootconfig w w"
  by (simp add: same_bootconfig_def)

lemma same_bootconfig_trans: "same_bootconfig a b \<Longrightarrow> same_bootconfig b c \<Longrightarrow> same_bootconfig a c"
  by (simp add: same_bootconfig_def)

lemma calm_refl: "calm w w"
  by (simp add: calm_def steps_refl same_bootconfig_refl)

lemma calm_trans: "calm a b \<Longrightarrow> calm b c \<Longrightarrow> calm a c"
  unfolding calm_def by (blast intro: steps_trans same_bootconfig_trans)

lemma calmI:
  "prepare_get_install_xml (guest w') = prepare_get_install_xml (guest w) \<Longrightarrow>
   trace w' = trace w @ evs \<Longrightarrow> list_all routine evs \<Longrightarrow> calm w w'"
  by (auto simp: calm_def same_bootconfig_def steps_iff)

text \<open>Sequencing rules, for a relation that is reflexive and transitive.\<close>

lemma lands_bind:
  assumes trans: "\<And>a b c. R a b \<Longrightarrow> R b c \<Longrightarrow> R a c"
    and m: "\<And>w. R w (snd (m w))"
    and f: "\<And>x w. R w (snd (f x w))"
  shows "R w (snd (bind m f w))"
proof (cases "m w")
  case (Pair r w1)
  with m [of w] have 1: "R w w1" by simp
  show ?thesis
  proof (cases r)
    case (Inl e)
    with Pair 1 show ?thesis by (simp add: bind_def)
  next
    case (Inr x)
    with Pair have "bind m f w = f x w1" by (simp add: bind_def)
    with trans [OF 1 f [of w1 x]] show ?thesis by simp
  qed
qed

lemma lands_try_finally:
  assumes trans: "\<And>a b c. R a b \<Longrightarrow> R b c \<Longrightarrow> R a c"
    and m: "\<And>w. R w (snd (body w))"
    and f: "\<And>w. R w (snd (fin w))"
  shows "R w (snd (try_finally body fin w))"
proof (cases "body w")
  case (Pair r w1)
  with m [of w] have 1: "R w w1" by simp
  from f [of w1] have 2: "R w1 (snd (fin w1))" .
  have "snd (try_finally body fin w) = snd (fin w1)"
    using Pair by (auto simp: try_finally_def split: prod.splits sum.splits)
  with trans [OF 1 2] show ?thesis by simp
qed

lemma calm_bind:
  "(\<And>w. calm w (snd (m w))) \<Longrightarrow> (\<And>x w. calm w (snd (f x w))) \<Longrightarrow> calm w (snd (bind m f w))"
  by (rule lands_bind [where R = calm]) (blast intro: calm_trans)+

lemma calm_if:
  "(c \<Longrightarrow> calm w (snd a)) \<Longrightarrow> (\<not> c \<Longrightarrow> calm w (snd b)) \<Longrightarrow> calm w (snd (if c then a else b))"
  by simp

lemma calm_if_app:
  "(c \<Longrightarrow> calm w (snd (a v))) \<Longrightarrow> (\<not> c \<Longrightarrow> calm w (snd (b v))) \<Longrightarrow>
   calm w (snd ((if c then a else b) v))"
  by simp

lemma calm_option_app:
  "(x = None \<Longrightarrow> calm w (snd (a v))) \<Longrightarrow> (\<And>d. x = Some d \<Longrightarrow> calm w (snd (b d v))) \<Longrightarrow>
   calm w (snd ((case x of None \<Rightarrow> a | Some d \<Rightarrow> b d) v))"
  by (cases x) simp_all

lemma calm_done: "calm w (snd (r, w))"
  by (simp add: calm_refl)

lemma calm_returns: "calm w (snd (returns x w))"
  by (simp add: returns_def calm_refl)

lemma calm_raise: "calm w (snd (raise e w))"
  by (simp add: raise_def calm_refl)

lemma calm_emit: "routine e \<Longrightarrow> calm w (emit e w)"
  by (rule calmI [where evs = "[e]"]) (simp_all add: emit_def)

lemma calm_call: "routine e \<Longrightarrow> calm w (snd (call e outcome w))"
  by (cases outcome) (simp_all add: call_def calm_emit)

lemma calm_update: "(\<And>w. calm w (f w)) \<Longrightarrow> calm w (snd (update f w))"
  by (simp add: update_def)

lemma calm_add_install_cdrom_device: "calm w (snd (add_install_cdrom_device env w))"
proof -
  have alloc: "calm w (w\<lparr>heap := h, next_ref := n\<rparr>)" for h n
    by (rule calmI [where evs = "[]"]) simp_all
  show ?thesis
    unfolding add_install_cdrom_device_def Let_def
    apply (rule calm_if, rule calm_done)
    apply (rule calm_if, rule calm_done)
    apply (rule calm_trans [OF alloc])
    apply (rule calm_bind)
     apply (rule calm_call, simp add: routine_def)
    apply (rule calm_update)
    apply (rule calmI [where evs = "[]"])
      apply (simp_all add: prepare_get_install_xml_def split: option.splits)
    done
qed


lemma calm_prepare: "calm w (snd (prepare env w))"
  unfolding prepare_def
  by (auto simp: Let_def emit_def routine_def split: option.splits sum.splits prod.splits
           intro!: calm_refl calmI [where evs = "[TreePrepare]"])

lemma calm_cleanup: "calm w (snd (cleanup env w))"
  unfolding cleanup_def
  by (auto simp: routine_def split: option.splits intro!: calm_refl calm_call)

lemma calm_build_storage_loop: "calm w (snd (build_storage_loop env rs w))"
proof (induction rs arbitrary: w)
  case Nil
  show ?case by (simp add: calm_refl)
next
  case (Cons r rs)
  show ?case
  proof (cases "build_storage env (trace w) (heap w r)")
    case (Inl e)
    then show ?thesis by (simp add: calm_emit routine_def)
  next
    case (Inr d)
    have "calm w (emit (BuildStorage r) (w\<lparr>heap := (heap w)(r := d)\<rparr>))"
      by (rule calmI [where evs = "[BuildStorage r]"]) (simp_all add: emit_def routine_def)
    from calm_trans [OF this Cons.IH] Inr show ?thesis by simp
  qed
qed

lemma calm_guest_get_xml: "calm w (snd (guest_get_xml env w))"
  by (simp add: guest_get_xml_def calm_emit routine_def)

lemma trace_alter_bootconfig: "trace (alter_bootconfig w) = trace w"
  by (simp add: alter_bootconfig_def Let_def split: option.splits)

lemma trace_remove_install_cdrom_media:
  "trace (snd (remove_install_cdrom_media env w)) = trace w"
  by (simp add: remove_install_cdrom_media_def Let_def split: option.splits)

lemma guest_remove_install_cdrom_media:
  "guest (snd (remove_install_cdrom_media env w)) = guest w"
  by (simp add: remove_install_cdrom_media_def Let_def split: option.splits)



lemma trace_finish_get_install_xml: "trace (finish_get_install_xml data w) = trace w"
  by (cases data) (simp add: finish_get_install_xml_def)

lemma get_install_xml_trace: "trace (snd (get_install_xml env w)) = trace w @ [GetXml]"
proof -
  let ?w1 = "emit GetXml (alter_bootconfig w)"
  obtain r w2 where rm: "remove_install_cdrom_media env ?w1 = (r, w2)"
    by (cases "remove_install_cdrom_media env ?w1")
  with trace_remove_install_cdrom_media [of env ?w1] have "trace w2 = trace w @ [GetXml]"
    by (simp add: emit_def trace_alter_bootconfig)
  with rm show ?thesis
    by (cases r)
       (simp_all add: get_install_xml_def Let_def try_finally_def bind_def update_def
          guest_get_xml_def trace_finish_get_install_xml)
qed


lemma steps_get_install_xml: "steps routine w (snd (get_install_xml env w))"
  by (rule steps_trace [where evs = "[GetXml]"])
     (simp_all add: get_install_xml_trace routine_def)


lemma calm_steps: "calm a b \<Longrightarrow> steps routine a b"
  by (simp add: calm_def)

lemma steps_bind:
  "(\<And>w. steps P w (snd (m w))) \<Longrightarrow> (\<And>x w. steps P w (snd (f x w))) \<Longrightarrow>
   steps P w (snd (bind m f w))"
  by (rule lands_bind [where R = "steps P"]) (blast intro: steps_trans)+

lemma steps_if_app:
  "(c \<Longrightarrow> steps P w (snd (a v))) \<Longrightarrow> (\<not> c \<Longrightarrow> steps P w (snd (b v))) \<Longrightarrow>
   steps P w (snd ((if c then a else b) v))"
  by simp

lemma steps_build_xml: "steps routine w (snd (build_xml env w))"
  unfolding build_xml_def
  by (intro steps_bind steps_if_app steps_get_install_xml
        calm_steps [OF calm_returns] calm_steps [OF calm_guest_get_xml])


lemma calm_defineXML: "calm w (snd (defineXML env xml w))"
  by (simp add: defineXML_def Let_def calm_emit routine_def)

lemma calm_createXML: "calm w (snd (createXML env xml w))"
  by (simp add: createXML_def Let_def calm_emit routine_def)

lemma calm_create_then_undefine:
  "calm w (snd (case call (DomainCreate d) (domain_create env (trace w) d) w of
                  (Inl e, w1) \<Rightarrow>
                    (case call (DomainUndefine d) (domain_undefine env (trace w1) d) w1 of
                       (u, w2) \<Rightarrow> (Inl e, w2))
                | (Inr u, w1) \<Rightarrow> (Inr u, w1)))"
proof -
  have 1: "calm w (emit (DomainCreate d) w)"
    by (simp add: calm_emit routine_def)
  have 2: "calm (emit (DomainCreate d) w) (emit (DomainUndefine d) (emit (DomainCreate d) w))"
    by (simp add: calm_emit routine_def)
  from 1 calm_trans [OF 1 2] show ?thesis
    by (auto simp: call_def split: option.splits)
qed

lemma calm_manual_transient_create:
  "calm w (snd (manual_transient_create env install_xml final_xml needs_boot w))"
  unfolding manual_transient_create_def
  by (intro calm_bind calm_if_app calm_returns calm_defineXML calm_create_then_undefine)

lemma calm_create_guest:
  "calm w (snd (create_guest env install_xml final_xml doboot transient w))"
  unfolding create_guest_def Let_def
  by (intro calm_bind calm_if_app calm_option_app calm_returns calm_raise calm_defineXML
        calm_createXML calm_manual_transient_create calm_update calm_emit)
     (simp_all add: routine_def)

lemma lands_bind_at:
  assumes trans: "\<And>a b c. R a b \<Longrightarrow> R b c \<Longrightarrow> R a c"
    and m: "R w (snd (m w))"
    and f: "\<And>x w1. m w = (Inr x, w1) \<Longrightarrow> R w1 (snd (f x w1))"
  shows "R w (snd (bind m f w))"
proof (cases "m w")
  case (Pair r w1)
  with m have 1: "R w w1" by simp
  show ?thesis
  proof (cases r)
    case (Inl e)
    with Pair 1 show ?thesis by (simp add: bind_def)
  next
    case (Inr x)
    with Pair have "bind m f w = f x w1" by (simp add: bind_def)
    with trans [OF 1 f [of x w1]] Pair Inr show ?thesis by simp
  qed
qed

lemma steps_set_install_defaults: "steps routine w (snd (set_install_defaults env w))"
proof (cases "defaults_are_set (inst w)")
  case True
  then show ?thesis by (simp add: set_install_defaults_def steps_refl)
next
  case False
  obtain r1 w1 where a: "add_install_cdrom_device env w = (r1, w1)"
    by (cases "add_install_cdrom_device env w")
  with calm_add_install_cdrom_device [of w env] have 1: "steps routine w w1"
    by (simp add: calm_def)
  have 2: "steps routine w1 (snd (bind (update f) (\<lambda>_.
        bind (\<lambda>w2. case guest_set_defaults env (trace w2) (guest w2) (heap w2) of
                      Inl e \<Rightarrow> (Inl e, emit GuestSetDefaults w2)
                    | Inr (g, h) \<Rightarrow> (Inr (), emit GuestSetDefaults (w2\<lparr>guest := g, heap := h\<rparr>)))
          (\<lambda>_. update (\<lambda>w3. w3\<lparr>inst := (inst w3)\<lparr>defaults_are_set := True\<rparr>\<rparr>))) w1))"
    if "trace (f w1) = trace w1" for f
    using that
    by (auto simp: bind_def update_def emit_def routine_def
             split: sum.splits prod.splits intro!: steps_trace [where evs = "[GuestSetDefaults]"])
  show ?thesis
  proof (cases r1)
    case (Inl e)
    with False a 1 show ?thesis by (simp add: set_install_defaults_def bind_def)
  next
    case (Inr u)
    with False a show ?thesis
      apply (simp add: set_install_defaults_def bind_def [of "add_install_cdrom_device env"])
      apply (rule steps_trans [OF 1])
      apply (rule 2)
      apply (simp add: Let_def)
      done
  qed
qed



lemma flag_autostart_effect:
  "\<exists>rest. trace (snd (flag_autostart env d w)) = trace w @ SetAutostart d # rest \<and>
          list_all routine rest \<and> guest (snd (flag_autostart env d w)) = guest w"
  by (auto simp: flag_autostart_def emit_def routine_def split: option.splits exn.splits)

lemma create_guest_makes_domain:
  "create_guest env install_xml final_xml doboot transient w = (Inr d, w') \<Longrightarrow>
   list_ex (makes_domain d) (new_events w w')"
  by (auto simp: create_guest_def manual_transient_create_def defineXML_def createXML_def
        bind_def update_def returns_def raise_def call_def emit_def new_events_def Let_def
        split: if_splits option.splits sum.splits prod.splits)

lemma create_and_flag_cases:
  assumes "bind (create_guest env ix fx doboot transient) (\<lambda>domain.
             bind (\<lambda>w. if autostart (inst w) then flag_autostart env domain w
                        else returns () w) (\<lambda>_. returns (ReturnedDomain domain))) w = (r, w')"
  shows "(\<exists>e. create_guest env ix fx doboot transient w = (Inl e, w')) \<or>
         (\<exists>d. create_guest env ix fx doboot transient w = (Inr d, w')) \<or>
         (\<exists>d w1. create_guest env ix fx doboot transient w = (Inr d, w1) \<and>
                  w' = snd (flag_autostart env d w1))"
  using assms
  by (auto simp: bind_def returns_def split: sum.splits prod.splits if_splits)


lemma start_install_lands:
  assumes trans: "\<And>a b c. R a b \<Longrightarrow> R b c \<Longrightarrow> R a c"
    and calmR: "\<And>a b. calm a b \<Longrightarrow> R a b"
    and sid: "\<And>w1. calm w w1 \<Longrightarrow> R w1 (snd (set_install_defaults env w1))"
    and xml: "\<And>w. R w (snd (build_xml env w))"
    and tail: "\<And>ix fx w. R w (snd (bind (create_guest env ix fx doboot transient) (\<lambda>domain.
             bind (\<lambda>w. if autostart (inst w) then flag_autostart env domain w
                        else returns () w) (\<lambda>_. returns (ReturnedDomain domain))) w))"
  shows "R w (snd (start_install env dry return_xml doboot transient w))"
proof -
  have outer: "R w (snd (bind V (\<lambda>_. bind (set_install_defaults env) (\<lambda>_. TF)) w))"
    if V: "calm w (snd (V w))" and TF: "\<And>w. R w (snd (TF w))"
    for V :: "unit action" and TF :: "install_result action"
  proof (rule lands_bind_at [where R = R])
    show "R a c" if "R a b" "R b c" for a b c using that by (rule trans)
    show "R w (snd (V w))" using V by (rule calmR)
    fix x w1 assume "V w = (Inr x, w1)"
    with V have c: "calm w w1" by simp
    show "R w1 (snd (bind (set_install_defaults env) (\<lambda>_. TF) w1))"
    proof (rule lands_bind_at [where R = R])
      show "R a c" if "R a b" "R b c" for a b c using that by (rule trans)
      show "R w1 (snd (set_install_defaults env w1))" using c by (rule sid)
      show "R w2 (snd (TF w2))" for w2 by (rule TF)
    qed
  qed
  have storage: "R w (snd (if \<not> dry then build_storage_loop env (devices_disk (guest w)) w
                           else returns () w))" for w
    by (simp add: calmR calm_build_storage_loop calm_returns)
  have finish: "R w (snd ((case x of (install_xml, final_xml) \<Rightarrow>
        if return_xml then returns (ReturnedXml install_xml final_xml)
        else if dry then returns ReturnedNone
        else
          bind (create_guest env install_xml final_xml doboot transient) (\<lambda>domain.
          bind (\<lambda>w. if autostart (inst w) then flag_autostart env domain w
                     else returns () w) (\<lambda>_.
          returns (ReturnedDomain domain)))) w))" for x w
    by (cases x) (simp add: calmR calm_returns tail)
  show ?thesis
    unfolding start_install_def
    apply (rule outer)
     apply (rule calm_call, simp add: routine_def)
    apply (rule lands_try_finally [where R = R])
      apply (erule (1) trans)
     apply (rule lands_bind [where R = R])
       apply (erule (1) trans)
      apply (rule calmR, rule calm_prepare)
     apply (rule lands_bind [where R = R])
       apply (erule (1) trans)
      apply (rule storage)
     apply (rule lands_bind [where R = R])
       apply (erule (1) trans)
      apply (rule xml)
     apply (rule finish)
    apply (rule calmR, rule calm_cleanup)
    done
qed




lemma steps_no_removal_create_and_flag:
  "steps no_removal w (snd (bind (create_guest env ix fx doboot transient) (\<lambda>domain.
             bind (\<lambda>w. if autostart (inst w) then flag_autostart env domain w
                        else returns () w) (\<lambda>_. returns (ReturnedDomain domain))) w))"
  (is "steps no_removal w (snd (?tail w))")
proof -
  obtain r w' where t: "?tail w = (r, w')" by (cases "?tail w")
  have "steps routine w (snd (create_guest env ix fx doboot transient w))"
    using calm_create_guest [of w env ix fx doboot transient] by (simp add: calm_def)
  then have c: "steps no_removal w (snd (create_guest env ix fx doboot transient w))"
    by (rule steps_mono) (simp add: routine_def no_removal_def)
  have f: "steps no_removal w1 (snd (flag_autostart env d w1))" for d w1
    using flag_autostart_effect [of env d w1]
    by (auto simp: steps_iff no_removal_def routine_def list_all_iff)
  from create_and_flag_cases [OF t] c f show ?thesis
    unfolding t by (auto intro: steps_trans)
qed

lemma start_install_no_removal:
  "steps no_removal w (snd (start_install env dry return_xml doboot transient w))"
proof (rule start_install_lands [where R = "steps no_removal"])
  show "steps no_removal a c" if "steps no_removal a b" "steps no_removal b c" for a b c
    using that by (rule steps_trans)
  show calm: "steps no_removal a b" if "calm a b" for a b
    using that by (auto simp: calm_def routine_def no_removal_def elim: steps_mono)
  show "steps no_removal w1 (snd (set_install_defaults env w1))" for w1
    by (rule steps_mono [OF steps_set_install_defaults]) (simp add: routine_def no_removal_def)
  show "steps no_removal w (snd (build_xml env w))" for w
    by (rule steps_mono [OF steps_build_xml]) (simp add: routine_def no_removal_def)
  show "steps no_removal w (snd (bind (create_guest env ix fx doboot transient) (\<lambda>domain.
             bind (\<lambda>w. if autostart (inst w) then flag_autostart env domain w
                        else returns () w) (\<lambda>_. returns (ReturnedDomain domain))) w))" for ix fx w
    by (rule steps_no_removal_create_and_flag)
qed

lemma autostart_after_creation_append:
  "autostart_after_creation seen (a @ b) =
     (autostart_after_creation seen a \<and> autostart_after_creation (seen @ a) b)"
  by (induction a arbitrary: seen) auto

lemma autostart_after_creation_mono:
  "autostart_after_creation seen es \<Longrightarrow> autostart_after_creation (pre @ seen) es"
proof (induction es arbitrary: seen)
  case Nil
  show ?case by simp
next
  case (Cons e es)
  from Cons.prems have "autostart_after_creation (seen @ [e]) es" by simp
  from Cons.IH [OF this] have "autostart_after_creation (pre @ seen @ [e]) es" .
  with Cons.prems show ?case
    by (auto split: event.splits)
qed

lemma autostart_after_creation_routine:
  "list_all routine es \<Longrightarrow> autostart_after_creation seen es"
  by (induction es arbitrary: seen) (auto simp: routine_def split: event.splits)

lemma autostart_disciplined_iff:
  "autostart_disciplined w w' \<longleftrightarrow>
     (\<exists>evs. trace w' = trace w @ evs \<and> autostart_after_creation [] evs)"
proof
  assume "autostart_disciplined w w'"
  then have "trace w' = trace w @ new_events w w'" "autostart_after_creation [] (new_events w w')"
    unfolding autostart_disciplined_def new_events_def by (metis append_take_drop_id)+
  then show "\<exists>evs. trace w' = trace w @ evs \<and> autostart_after_creation [] evs" by blast
next
  assume "\<exists>evs. trace w' = trace w @ evs \<and> autostart_after_creation [] evs"
  then show "autostart_disciplined w w'"
    by (auto simp: autostart_disciplined_def new_events_def)
qed

lemma autostart_disciplined_trans:
  assumes "autostart_disciplined a b" "autostart_disciplined b c"
  shows "autostart_disciplined a c"
proof -
  from assms obtain e1 e2 where
    1: "trace b = trace a @ e1" "autostart_after_creation [] e1" and
    2: "trace c = trace b @ e2" "autostart_after_creation [] e2"
    unfolding autostart_disciplined_iff by blast
  from autostart_after_creation_mono [OF 2(2), of e1] 1(2)
  have "autostart_after_creation [] (e1 @ e2)"
    by (simp add: autostart_after_creation_append)
  with 1(1) 2(1) show ?thesis
    unfolding autostart_disciplined_iff by auto
qed

lemma autostart_disciplined_steps:
  "steps routine a b \<Longrightarrow> autostart_disciplined a b"
  unfolding steps_iff autostart_disciplined_iff
  by (blast intro: autostart_after_creation_routine)

lemma autostart_disciplined_create_and_flag:
  "autostart_disciplined w (snd (bind (create_guest env ix fx doboot transient) (\<lambda>domain.
             bind (\<lambda>w. if autostart (inst w) then flag_autostart env domain w
                        else returns () w) (\<lambda>_. returns (ReturnedDomain domain))) w))"
  (is "autostart_disciplined w (snd (?tail w))")
proof -
  obtain r w' where t: "?tail w = (r, w')" by (cases "?tail w")
  have c: "steps routine w (snd (create_guest env ix fx doboot transient w))"
    using calm_create_guest [of w env ix fx doboot transient] by (simp add: calm_def)
  from create_and_flag_cases [OF t] show ?thesis
  proof (elim disjE exE conjE)
    fix e assume "create_guest env ix fx doboot transient w = (Inl e, w')"
    with c show ?thesis unfolding t by (simp add: autostart_disciplined_steps)
  next
    fix d assume "create_guest env ix fx doboot transient w = (Inr d, w')"
    with c show ?thesis unfolding t by (simp add: autostart_disciplined_steps)
  next
    fix d w1
    assume cg: "create_guest env ix fx doboot transient w = (Inr d, w1)"
      and w': "w' = snd (flag_autostart env d w1)"
    from c cg obtain e1 where e1: "trace w1 = trace w @ e1" "list_all routine e1"
      unfolding steps_iff by auto
    then have ne: "new_events w w1 = e1" by (simp add: new_events_def)
    from create_guest_makes_domain [OF cg] ne have made: "list_ex (makes_domain d) e1" by simp
    from flag_autostart_effect [of env d w1] w' obtain rest where
      rest: "trace w' = trace w1 @ SetAutostart d # rest" "list_all routine rest" by auto
    have "autostart_after_creation [] (e1 @ SetAutostart d # rest)"
      using e1(2) made rest(2)
      by (simp add: autostart_after_creation_append autostart_after_creation_routine)
    with e1(1) rest(1) show ?thesis
      unfolding t autostart_disciplined_iff by auto
  qed
qed

lemma start_install_autostart_disciplined:
  "autostart_disciplined w (snd (start_install env dry return_xml doboot transient w))"
proof (rule start_install_lands [where R = autostart_disciplined])
  show "autostart_disciplined a c" if "autostart_disciplined a b" "autostart_disciplined b c"
    for a b c using that by (rule autostart_disciplined_trans)
  show "autostart_disciplined a b" if "calm a b" for a b
    using that by (simp add: calm_def autostart_disciplined_steps)
  show "autostart_disciplined w1 (snd (set_install_defaults env w1))" for w1
    by (rule autostart_disciplined_steps [OF steps_set_install_defaults])
  show "autostart_disciplined w (snd (build_xml env w))" for w
    by (rule autostart_disciplined_steps [OF steps_build_xml])
  show "autostart_disciplined w (snd (bind (create_guest env ix fx doboot transient) (\<lambda>domain.
             bind (\<lambda>w. if autostart (inst w) then flag_autostart env domain w
                        else returns () w) (\<lambda>_. returns (ReturnedDomain domain))) w))" for ix fx w
    by (rule autostart_disciplined_create_and_flag)
qed

section \<open>Restoring the boot configuration\<close>




section \<open>Validation in the constructor\<close>

text \<open>
  C6.  A constructor call with a location kernel but no location initrd, or the other
  way round, or with either of them but no location, raises \<open>ValueError\<close> and has
  made no call to the media layer by then: the calls recorded are those made before.
\<close>

theorem Installer_init_validates:
  "truthy location_kernel \<noteq> truthy location_initrd \<or>
   ((truthy location_kernel \<or> truthy location_initrd) \<and> \<not> truthy location_arg) \<Longrightarrow>
   \<exists>msg. Installer_init env cdrom_arg location_arg bootdev location_kernel location_initrd tr =
           (Inl (ValueError msg), tr)"
  by (auto simp: Installer_init_def Let_def)

theorem Installer_init_validates_witness:
  "Installer_init plain_env (Some ''/isos/a.iso'') (Some ''http://mirror/tree'') None
     (Some ''vmlinuz'') None [] =
     (Inl (ValueError ''location kernel/initrd must be be specified as a pair''), [])"
  using Installer_init_validates [of "Some ''vmlinuz''" None "Some ''http://mirror/tree''"
      plain_env "Some ''/isos/a.iso''" None "[]"]
  by (simp add: Installer_init_def truthy_def)

section \<open>Define, start, and undefine on failure\<close>

text \<open>
  C3.  In \<open>_manual_transient_create\<close>, when the domain has been defined and its
  \<open>create()\<close> raises, \<open>undefine()\<close> is called on it, and the exception that
  leaves the function is the one \<open>create()\<close> raised, whatever \<open>undefine()\<close> did.
\<close>

theorem manual_transient_create_undefines:
  "conn_defineXML env (trace w) (py_or install_xml final_xml) = Inr d \<Longrightarrow>
   domain_create env (trace w @ [DefineXML (py_or install_xml final_xml) (Inr d)]) d = Some e \<Longrightarrow>
   manual_transient_create env install_xml final_xml True w =
     (Inl e, w\<lparr>trace := trace w @ [DefineXML (py_or install_xml final_xml) (Inr d),
                                     DomainCreate d, DomainUndefine d]\<rparr>)"
  by (simp add: manual_transient_create_def bind_def defineXML_def call_def emit_def Let_def
           split: option.splits)

theorem manual_transient_create_undefines_witness:
  "manual_transient_create boot_failure_env (Some ''<install/>'') ''<final/>'' True plain_world =
     (Inl (LibvirtError False ''boot failed''),
      plain_world\<lparr>trace := [DefineXML ''<install/>'' (Inr 7), DomainCreate 7, DomainUndefine 7]\<rparr>)"
  using manual_transient_create_undefines
     [of boot_failure_env plain_world "Some ''<install/>''" "''<final/>''" 7
         "LibvirtError False ''boot failed''"]
  by (simp add: boot_failure_env_def plain_env_def py_or_def plain_world_def)

section \<open>Autostart\<close>

text \<open>
  C7.  \<open>_flag_autostart\<close> calls \<open>setAutostart\<close>; when that raises a libvirt error
  that \<open>is_error_nosupport\<close> accepts, a warning is logged and the function returns;
  every other exception leaves the function.  In \<open>start_install\<close> every
  \<open>setAutostart\<close> call is on a domain that a \<open>defineXML\<close> or \<open>createXML\<close> call
  of the same \<open>start_install\<close> has returned before.
\<close>

theorem flag_autostart_spec:
  "(domain_setAutostart env (trace w) d = None \<longrightarrow>
      flag_autostart env d w = (Inr (), emit (SetAutostart d) w)) \<and>
   (domain_setAutostart env (trace w) d = Some (LibvirtError True m) \<longrightarrow>
      flag_autostart env d w =
        (Inr (), emit (LogWarning
           ''Could not set autostart flag: libvirt connection does not support autostart.'')
           (emit (SetAutostart d) w))) \<and>
   (domain_setAutostart env (trace w) d = Some e \<and> (\<forall>m. e \<noteq> LibvirtError True m) \<longrightarrow>
      flag_autostart env d w = (Inl e, emit (SetAutostart d) w)) \<and>
   autostart_disciplined v (snd (start_install env dry return_xml doboot transient v))"
proof -
  have flag: "(domain_setAutostart env (trace w) d = None \<longrightarrow>
      flag_autostart env d w = (Inr (), emit (SetAutostart d) w)) \<and>
   (domain_setAutostart env (trace w) d = Some (LibvirtError True m) \<longrightarrow>
      flag_autostart env d w =
        (Inr (), emit (LogWarning
           ''Could not set autostart flag: libvirt connection does not support autostart.'')
           (emit (SetAutostart d) w))) \<and>
   (domain_setAutostart env (trace w) d = Some e \<and> (\<forall>m. e \<noteq> LibvirtError True m) \<longrightarrow>
      flag_autostart env d w = (Inl e, emit (SetAutostart d) w))"
    by (auto simp: flag_autostart_def split: option.splits exn.splits)
  with start_install_autostart_disciplined [of v env dry return_xml doboot transient]
  show ?thesis by blast
qed

theorem flag_autostart_spec_witness:
  "fst (start_install no_autostart_env False False True False plain_world) =
     Inr (ReturnedDomain 7) \<and>
   fst (start_install denied_autostart_env False False True False plain_world) =
     Inl (LibvirtError False ''access denied'') \<and>
   flag_autostart no_autostart_env 7 plain_world =
     (Inr (), emit (LogWarning
        ''Could not set autostart flag: libvirt connection does not support autostart.'')
        (emit (SetAutostart 7) plain_world)) \<and>
   new_events plain_world
     (snd (start_install no_autostart_env False False True False plain_world)) =
     [ValidateName ''vm1'', DevValidate 2, GuestSetDefaults, BuildStorage 0, BuildStorage 2,
      BuildStorage 1, GetXml, GetXml, MeterStart ''Creating domain...'',
      CreateXML ''cdrom,hd'' (Inr 7), DefineXML ''hd'' (Inr 7), DomainXMLDesc 7, SetAutostart 7,
      LogWarning ''Could not set autostart flag: libvirt connection does not support autostart.''] \<and>
   autostart_disciplined plain_world
     (snd (start_install no_autostart_env False False True False plain_world))"
proof -
  have unsupported:
    "domain_setAutostart no_autostart_env (trace plain_world) 7 =
       Some (LibvirtError True ''unsupported'')"
    by (simp add: no_autostart_env_def)
  have run: "new_events plain_world
     (snd (start_install no_autostart_env False False True False plain_world)) =
     [ValidateName ''vm1'', DevValidate 2, GuestSetDefaults, BuildStorage 0, BuildStorage 2,
      BuildStorage 1, GetXml, GetXml, MeterStart ''Creating domain...'',
      CreateXML ''cdrom,hd'' (Inr 7), DefineXML ''hd'' (Inr 7), DomainXMLDesc 7, SetAutostart 7,
      LogWarning ''Could not set autostart flag: libvirt connection does not support autostart.'']"
    by code_simp
  have tolerated: "fst (start_install no_autostart_env False False True False plain_world) =
     Inr (ReturnedDomain 7)"
    by code_simp
  have fatal: "fst (start_install denied_autostart_env False False True False plain_world) =
     Inl (LibvirtError False ''access denied'')"
    by code_simp
  from flag_autostart_spec
     [of no_autostart_env plain_world 7 "''unsupported''" "LibvirtError True ''unsupported''"
         plain_world False False True False] unsupported run tolerated fatal
  show ?thesis by simp
qed

section \<open>Removing created disks\<close>

lemma cleanup_created_disks_loop_trace:
  "\<forall>r \<in> set rs. path (heap w r) \<noteq> None \<Longrightarrow>
   cleanup_created_disks_loop env rs w =
     (Inr (), w\<lparr>trace := trace w @
        concat (map2 (\<lambda>r out. removal_events (heap w r) out) rs
                  (removal_answers env (heap w) (trace w) rs))\<rparr>)"
proof (induction rs arbitrary: w)
  case Nil
  show ?case by simp
next
  case (Cons r rs)
  from Cons.prems obtain p where p: "path (heap w r) = Some p" by auto
  let ?d = "heap w r"
  let ?answer = "removal_answer env (trace w) ?d"
  let ?w2 = "w\<lparr>trace := trace w @ removal_events ?d ?answer\<rparr>"
  have step: "cleanup_created_disks_loop env (r # rs) w = cleanup_created_disks_loop env rs ?w2"
    using p
    by (auto simp: Let_def remove_disk_def call_def emit_def removal_events_def removal_call_def
          removal_start_def removal_failure_def removal_answer_def
          split: option.splits)
  have "\<forall>r \<in> set rs. path (heap ?w2 r) \<noteq> None" using Cons.prems by simp
  from Cons.IH [OF this] show ?case
    unfolding step by (simp add: Let_def)
qed

lemma length_removal_answers: "length (removal_answers env h tr rs) = length rs"
  by (induction rs arbitrary: tr) (simp_all add: Let_def)

lemma removal_calls_of_trace:
  "length answers = length rs \<Longrightarrow>
   filter is_removal (concat (map2 (\<lambda>r out. removal_events (h r) out) rs answers)) =
     map (\<lambda>r. removal_call (h r)) rs"
proof (induction rs arbitrary: answers)
  case Nil
  then show ?case by simp
next
  case (Cons r rs)
  then obtain out outs where o: "answers = out # outs" "length outs = length rs"
    by (cases answers) auto
  from Cons.IH [OF o(2)] o(1) show ?case
    by (simp add: removal_events_def removal_call_def removal_start_def removal_failure_def
          split: option.splits)
qed

lemma removal_failure_logged:
  "i < length rs \<Longrightarrow> removal_answers env h tr rs ! i = Some e \<Longrightarrow>
   removal_failure (h (rs ! i)) e \<in>
     set (concat (map2 (\<lambda>r out. removal_events (h r) out) rs (removal_answers env h tr rs)))"
proof (induction rs arbitrary: tr i)
  case Nil
  then show ?case by simp
next
  case (Cons r rs)
  show ?case
  proof (cases i)
    case 0
    with Cons.prems show ?thesis by (simp add: Let_def removal_events_def)
  next
    case (Suc j)
    with Cons.prems have "j < length rs"
      "removal_answers env h (tr @ removal_events (h r) (removal_answer env tr (h r))) rs ! j
         = Some e"
      by (simp_all add: Let_def)
    from Cons.IH [OF this] Suc show ?thesis by (simp add: Let_def)
  qed
qed

text \<open>
  C5.  \<open>cleanup_created_disks\<close> goes through the disks of the guest whose
  \<open>storage_was_created\<close> is set, in order, and through no other disk.  For each it
  makes one removal call (the volume's \<open>delete()\<close>, or \<open>os.unlink\<close> of the path);
  when the storage layer answers that call with an exception, the failure is logged
  as an error and the loop goes on with the next disk, otherwise the meter is ended.
  So the function returns normally and leaves the guest and its devices as they
  were.  \<open>start_install\<close>, however it ends, makes no removal call.  (A disk whose
  storage was created has a path.)
\<close>

theorem cleanup_created_disks_spec:
  "((\<forall>r \<in> set (devices_disk (guest w)).
        storage_was_created (heap w r) \<longrightarrow> path (heap w r) \<noteq> None) \<and>
    created = filter (\<lambda>r. storage_was_created (heap w r)) (devices_disk (guest w)) \<and>
    answers = removal_answers env (heap w) (trace w) created \<longrightarrow>
      cleanup_created_disks env w =
        (Inr (), w\<lparr>trace := trace w @
           concat (map2 (\<lambda>r out. removal_events (heap w r) out) created answers)\<rparr>) \<and>
      length answers = length created \<and>
      filter is_removal (new_events w (snd (cleanup_created_disks env w))) =
        map (\<lambda>r. removal_call (heap w r)) created \<and>
      (\<forall>i e. i < length created \<and> answers ! i = Some e \<longrightarrow>
         removal_failure (heap w (created ! i)) e \<in>
           set (new_events w (snd (cleanup_created_disks env w))))) \<and>
   steps no_removal v (snd (start_install env dry return_xml doboot transient v))"
proof (intro conjI impI)
  assume a: "(\<forall>r \<in> set (devices_disk (guest w)).
        storage_was_created (heap w r) \<longrightarrow> path (heap w r) \<noteq> None) \<and>
    created = filter (\<lambda>r. storage_was_created (heap w r)) (devices_disk (guest w)) \<and>
    answers = removal_answers env (heap w) (trace w) created"
  then have created: "get_created_disks w = created"
    and answers: "answers = removal_answers env (heap w) (trace w) created"
    and paths: "\<forall>r \<in> set created. path (heap w r) \<noteq> None"
    by (auto simp: get_created_disks_def)
  show run: "cleanup_created_disks env w =
        (Inr (), w\<lparr>trace := trace w @
           concat (map2 (\<lambda>r out. removal_events (heap w r) out) created answers)\<rparr>)"
  proof (cases "created = []")
    case True
    with created answers show ?thesis by (simp add: cleanup_created_disks_def)
  next
    case False
    with cleanup_created_disks_loop_trace [OF paths, of env] created answers show ?thesis
      by (simp add: cleanup_created_disks_def Let_def)
  qed
  show len: "length answers = length created"
    by (simp add: answers length_removal_answers)
  from removal_calls_of_trace [OF len, of "heap w"]
  show "filter is_removal (new_events w (snd (cleanup_created_disks env w))) =
        map (\<lambda>r. removal_call (heap w r)) created"
    unfolding run by (simp add: new_events_def)
  have new: "new_events w (snd (cleanup_created_disks env w)) =
      concat (map2 (\<lambda>r out. removal_events (heap w r) out) created
                (removal_answers env (heap w) (trace w) created))"
    unfolding run answers by (simp add: new_events_def)
  show "\<forall>i e. i < length created \<and> answers ! i = Some e \<longrightarrow>
         removal_failure (heap w (created ! i)) e \<in>
           set (new_events w (snd (cleanup_created_disks env w)))"
    unfolding new answers using removal_failure_logged by blast
next
  show "steps no_removal v (snd (start_install env dry return_xml doboot transient v))"
    by (rule start_install_no_removal)
qed

theorem cleanup_created_disks_spec_witness:
  "fst (cleanup_created_disks stuck_file_env created_world) = Inr () \<and>
   new_events created_world (snd (cleanup_created_disks stuck_file_env created_world)) =
     [MeterStart (''Removing disk '' @ [CHR 0x27] @ ''vm1.img'' @ [CHR 0x27]),
      Unlink ''/var/lib/images/vm1.img'',
      LogError (''Failed to remove disk '' @ [CHR 0x27] @ ''vm1.img'' @ [CHR 0x27] @
                '': Permission denied''),
      MeterStart (''Removing disk '' @ [CHR 0x27] @ ''vm1-data'' @ [CHR 0x27]),
      VolDelete ''vm1-data'',
      MeterEnd] \<and>
   filter is_removal (new_events created_world
     (snd (cleanup_created_disks stuck_file_env created_world))) =
     [Unlink ''/var/lib/images/vm1.img'', VolDelete ''vm1-data''] \<and>
   LogError (''Failed to remove disk '' @ [CHR 0x27] @ ''vm1.img'' @ [CHR 0x27] @
             '': Permission denied'') \<in>
     set (new_events created_world (snd (cleanup_created_disks stuck_file_env created_world)))"
proof -
  let ?answers = "[Some (OtherException ''Permission denied''), None]"
  have paths: "\<forall>r \<in> set (devices_disk (guest created_world)).
        storage_was_created (heap created_world r) \<longrightarrow> path (heap created_world r) \<noteq> None"
    by (simp add: created_world_def created_heap_def plain_guest_def)
  have created: "filter (\<lambda>r. storage_was_created (heap created_world r))
                    (devices_disk (guest created_world)) = [0, 2]"
    by code_simp
  have answers:
    "removal_answers stuck_file_env (heap created_world) (trace created_world) [0, 2] = ?answers"
    by code_simp
  have events: "new_events created_world
       (snd (cleanup_created_disks stuck_file_env created_world)) =
     [MeterStart (''Removing disk '' @ [CHR 0x27] @ ''vm1.img'' @ [CHR 0x27]),
      Unlink ''/var/lib/images/vm1.img'',
      LogError (''Failed to remove disk '' @ [CHR 0x27] @ ''vm1.img'' @ [CHR 0x27] @
                '': Permission denied''),
      MeterStart (''Removing disk '' @ [CHR 0x27] @ ''vm1-data'' @ [CHR 0x27]),
      VolDelete ''vm1-data'',
      MeterEnd]"
    by code_simp
  from cleanup_created_disks_spec [of created_world "[0, 2]" ?answers stuck_file_env]
    paths created answers
  have run: "fst (cleanup_created_disks stuck_file_env created_world) = Inr ()"
    by simp
  from run events show ?thesis by simp
qed

section \<open>Setting the defaults once\<close>

lemma set_install_defaults_sets_flag:
  "set_install_defaults env w = (Inr u, w1) \<Longrightarrow> defaults_are_set (inst w1)"
  by (auto simp: set_install_defaults_def bind_def update_def split: if_splits sum.splits prod.splits)

lemma set_install_defaults_again:
  "defaults_are_set (inst w) \<Longrightarrow> set_install_defaults env w = (Inr (), w)"
  by (simp add: set_install_defaults_def)

lemma set_install_defaults_times_again:
  "defaults_are_set (inst w) \<Longrightarrow> set_install_defaults_times env n w = (Inr (), w)"
  by (induction n) (simp_all add: returns_def bind_def set_install_defaults_again)

text \<open>
  C8.  A call of \<open>set_install_defaults\<close> that returns leaves the one-shot flag set;
  any later call, with whatever the collaborators would do then, returns at once and
  changes nothing: no device is added, the boot order is not computed again.  So
  \<open>n + 1\<close> calls in a row leave the state that the first call left.
\<close>

theorem set_install_defaults_idempotent:
  "set_install_defaults env w = (Inr u, w1) \<Longrightarrow>
   defaults_are_set (inst w1) \<and>
   set_install_defaults env' w1 = (Inr (), w1) \<and>
   set_install_defaults_times env (Suc n) w = (Inr (), w1)"
proof -
  assume first: "set_install_defaults env w = (Inr u, w1)"
  then have flag: "defaults_are_set (inst w1)" by (rule set_install_defaults_sets_flag)
  from first have "set_install_defaults_times env (Suc n) w = set_install_defaults_times env n w1"
    by (simp add: bind_def)
  with flag show ?thesis
    by (simp add: set_install_defaults_again set_install_defaults_times_again)
qed

theorem set_install_defaults_idempotent_witness:
  "devices_disk (guest (snd (set_install_defaults plain_env plain_world))) = [0, 2, 1] \<and>
   set_install_defaults_times plain_env 3 plain_world =
     (Inr (), snd (set_install_defaults plain_env plain_world)) \<and>
   set_install_defaults no_render_env (snd (set_install_defaults plain_env plain_world)) =
     (Inr (), snd (set_install_defaults plain_env plain_world))"
proof -
  have ok: "fst (set_install_defaults plain_env plain_world) = Inr ()"
    by code_simp
  have disks: "devices_disk (guest (snd (set_install_defaults plain_env plain_world))) = [0, 2, 1]"
    by code_simp
  have first: "set_install_defaults plain_env plain_world =
     (Inr (), snd (set_install_defaults plain_env plain_world))"
    using ok by (metis prod.collapse)
  from set_install_defaults_idempotent [OF first, of no_render_env 2] disks
  show ?thesis by (simp add: numeral_3_eq_3)
qed

section \<open>The install CDROM device\<close>






section \<open>Detection of a location that cannot be reached\<close>

lemma str_contains_append: "str_contains n (a @ n @ b)"
proof (induction a)
  case Nil
  show ?case
  proof (cases "n @ b")
    case Nil
    then show ?thesis by simp
  next
    case (Cons x xs)
    have "prefix n (n @ b)" by simp
    with Cons show ?thesis by simp
  qed
next
  case (Cons x a)
  then show ?case by simp
qed

lemma detect_unreachable:
  "\<forall>p. \<not> hasFile f p \<Longrightarrow> detect families f shape = Inl (detection_failure (fetcher_location f))"
proof -
  assume "\<forall>p. \<not> hasFile f p"
  then have "\<not> matches fam f" for fam
    by (simp add: matches_def list_ex_iff)
  then have "find (\<lambda>fam. matches fam f) (candidates families shape) = None"
    by (simp add: find_None_iff)
  then show ?thesis by (simp add: detect_def)
qed

lemma detection_failure_hint:
  "\<exists>msg. detection_failure loc = ValueError msg \<and> str_contains ''maybe you mistyped'' msg"
proof -
  have "str_contains ''maybe you mistyped''
     ((''Could not find an installable distribution at '' @ loc @
       '': the location could not be accessed, '') @ ''maybe you mistyped'' @ ''?'')"
    by (rule str_contains_append)
  then show ?thesis by (simp add: detection_failure_def)
qed

text \<open>
  C9.  Detection on a location where no file can be found fails, in full-scan and in
  short-circuit mode, with a \<open>ValueError\<close> whose message contains
  \<open>maybe you mistyped\<close>; and \<open>test001BadURL\<close>, run against this detection with a
  fetcher for its bad URL on which no file exists, passes.
\<close>

theorem detect_unreachable_hint:
  "((\<forall>p. \<not> hasFile f p) \<longrightarrow>
      (\<exists>msg. detect families f shape = Inl (ValueError msg) \<and>
             str_contains ''maybe you mistyped'' msg)) \<and>
   (fetcherForURI ''http://aksdkakskdfa-idontexist.com/foo/tree'' =
      Inr (unreachable ''http://aksdkakskdfa-idontexist.com/foo/tree'') \<longrightarrow>
    test001BadURL fetcherForURI (\<lambda>fetcher i. detect families fetcher shape) = TestPassed)"
proof (intro conjI impI)
  assume "\<forall>p. \<not> hasFile f p"
  from detect_unreachable [OF this] detection_failure_hint [of "fetcher_location f"]
  show "\<exists>msg. detect families f shape = Inl (ValueError msg) \<and>
             str_contains ''maybe you mistyped'' msg" by auto
next
  let ?url = "''http://aksdkakskdfa-idontexist.com/foo/tree''"
  let ?gds = "\<lambda>i::nat. detect families (unreachable ?url) shape"
  assume f: "fetcherForURI ?url = Inr (unreachable ?url)"
  have d: "?gds i = Inl (detection_failure ?url)" for i
    using detect_unreachable [of "unreachable ?url" families shape]
    by (simp add: unreachable_def)
  have "\<not> str_contains ''502'' (exn_str (detection_failure ?url))"
    by (simp add: detection_failure_def)
  then have "\<not> proxy_failure (?gds 0)"
    by (simp add: d proxy_failure_def)
  from storeForDistro_loop_stop [of 0 "[0..<10]" ?gds, OF _ _ this]
  have "fst (storeForDistro ?gds) = Inl (detection_failure ?url)"
    by (simp add: storeForDistro_def d del: upt_Suc)
  moreover obtain msg where "detection_failure ?url = ValueError msg"
    "str_contains ''maybe you mistyped'' msg"
    using detection_failure_hint [of ?url] by blast
  ultimately show "test001BadURL fetcherForURI (\<lambda>fetcher i. detect families fetcher shape)
      = TestPassed"
    using f by (simp add: test001BadURL_def fetchWrapper_def Let_def)
qed

theorem detect_unreachable_hint_witness:
  "detect sample_families (unreachable ''http://nonexistent.invalid/tree'') hvm_shape =
     Inl (ValueError (''Could not find an installable distribution at '' @
            ''http://nonexistent.invalid/tree'' @
            '': the location could not be accessed, maybe you mistyped?'')) \<and>
   test001BadURL (\<lambda>url. Inr (unreachable url))
     (\<lambda>fetcher i. detect sample_families fetcher hvm_shape) = TestPassed"
proof -
  have none: "\<forall>p. \<not> hasFile (unreachable ''http://nonexistent.invalid/tree'') p"
    by (simp add: unreachable_def)
  have run: "detect sample_families (unreachable ''http://nonexistent.invalid/tree'') hvm_shape =
     Inl (ValueError (''Could not find an installable distribution at '' @
            ''http://nonexistent.invalid/tree'' @
            '': the location could not be accessed, maybe you mistyped?''))"
    by (simp add: detect_def candidates_def hvm_shape_def sample_families_def matches_def
          unreachable_def detection_failure_def)
  from detect_unreachable_hint
     [of "unreachable ''http://nonexistent.invalid/tree''" sample_families hvm_shape
         "\<lambda>url. Inr (unreachable url)"] none run
  show ?thesis by simp
qed

end
